theory Spec2Isabelle
  imports Complex_Main "HOL-Library.Sublist"
begin


section \<open>Strings\<close>

text \<open>
  A JavaScript string is a sequence of UTF-16 code units. The model covers the code units
  below 256, one \<^typ>\<open>char\<close> each: on these \<open>toLowerCase\<close> maps \<open>A..Z\<close> and the
  accented capitals \<open>0xC0..0xDE\<close> (without the multiplication sign \<open>0xD7\<close>) to the unit
  32 places further, and leaves every other unit alone.
\<close>

definition char_code :: "char \<Rightarrow> nat" where
  "char_code c = of_char c"

definition toLowerCase_unit :: "char \<Rightarrow> char" where
  "toLowerCase_unit c =
     (let n = char_code c
      in if (65 \<le> n \<and> n \<le> 90) \<or> (192 \<le> n \<and> n \<le> 222 \<and> n \<noteq> 215)
         then char_of (n + 32) else c)"

definition toLowerCase :: "string \<Rightarrow> string" where
  "toLowerCase s = map toLowerCase_unit s"

text \<open>The character class \<open>[a-z0-9]\<close>.\<close>

definition is_slug_char :: "char \<Rightarrow> bool" where
  "is_slug_char c = (let n = char_code c in (97 \<le> n \<and> n \<le> 122) \<or> (48 \<le> n \<and> n \<le> 57))"

text \<open>
  \<open>.replace(/[^a-z0-9]+/g, '-')\<close>: every maximal run of units outside \<open>[a-z0-9]\<close>
  becomes one hyphen.
\<close>

function replace_runs :: "string \<Rightarrow> string" where
  "replace_runs [] = []"
| "replace_runs (c # cs) =
     (if is_slug_char c then c # replace_runs cs
      else CHR ''-'' # replace_runs (dropWhile (\<lambda>d. \<not> is_slug_char d) cs))"
  by pat_completeness auto
termination
  by (relation "measure length") (auto simp: less_Suc_eq_le length_dropWhile_le)

text \<open>\<open>.replace(/^-+|-+$/g, '')\<close>: the leading and the trailing run of hyphens go.\<close>

definition strip_hyphens :: "string \<Rightarrow> string" where
  "strip_hyphens s =
     rev (dropWhile (\<lambda>c. c = CHR ''-'') (rev (dropWhile (\<lambda>c. c = CHR ''-'') s)))"

text \<open>The \<open>baseSlug\<close> of \<open>generateSlug\<close> (src/lib/db.js, lines 11 to 14).\<close>

definition normalize_title :: "string \<Rightarrow> string" where
  "normalize_title title = strip_hyphens (replace_runs (toLowerCase title))"

text \<open>
  The words of a text are its maximal runs of characters in \<open>[a-z0-9]\<close>; a slug in
  words is the words joined by single hyphens.
\<close>

function slug_words :: "string \<Rightarrow> string list" where
  "slug_words [] = []"
| "slug_words (c # cs) =
     (if is_slug_char c
      then (c # takeWhile is_slug_char cs) # slug_words (dropWhile is_slug_char cs)
      else slug_words cs)"
  by pat_completeness auto
termination
  by (relation "measure length") (auto simp: less_Suc_eq_le length_dropWhile_le)

fun join_hyphen :: "string list \<Rightarrow> string" where
  "join_hyphen [] = []"
| "join_hyphen [w] = w"
| "join_hyphen (w # v # ws) = w @ CHR ''-'' # join_hyphen (v # ws)"

text \<open>A text without the hyphens at its end.\<close>

definition strip_trailing :: "string \<Rightarrow> string" where
  "strip_trailing x = rev (dropWhile (\<lambda>c. c = CHR ''-'') (rev x))"

text \<open>
  The decimal rendering of the counter inside the template literal. The counter is a
  natural number here; the source's counter is a double, which counts exactly up to \<open>2^53\<close>.
\<close>

fun Number_toString :: "nat \<Rightarrow> string" where
  "Number_toString n =
     (if n < 10 then [char_of (48 + n)]
      else Number_toString (n div 10) @ [char_of (48 + n mod 10)])"

declare Number_toString.simps [simp del]

section \<open>The store client\<close>

text \<open>
  Every call on the query builder is awaited: the promise is rejected (the \<open>await\<close>
  throws) or fulfilled with a response \<open>{data, error}\<close>. The handlers never look inside
  an error, only at whether there is one; two kinds are told apart here so that the
  theorems can: \<open>.single()\<close> reports \<open>NotSingleRow\<close> when the rows that match are not
  exactly one, and \<open>QueryFailed\<close> stands for a query the store could not answer.
\<close>

datatype store_error = NotSingleRow | QueryFailed

record 'a response =
  data :: "'a option"
  error :: "store_error option"

datatype 'r awaited = Rejected | Fulfilled 'r

datatype exception = StoreException

text \<open>\<open>.single()\<close> on the rows a query matches.\<close>

definition single_of :: "'a list \<Rightarrow> 'a response" where
  "single_of xs = (case xs of [x] \<Rightarrow> \<lparr>data = Some x, error = None\<rparr>
                   | _ \<Rightarrow> \<lparr>data = None, error = Some NotSingleRow\<rparr>)"

text \<open>An identifier argument is used when it is truthy: neither \<open>null\<close> nor the empty string.\<close>

definition truthy_string :: "string option \<Rightarrow> bool" where
  "truthy_string v = (case v of None \<Rightarrow> False | Some s \<Rightarrow> s \<noteq> [])"

section \<open>The slug generator\<close>

text \<open>
  The probe of \<open>generateSlug\<close>:
  \<open>supabase.from(table).select('id').eq('slug', slug)\<close>, with \<open>.neq('id', excludeId)\<close>
  when \<open>excludeId\<close> is truthy, then \<open>.single()\<close>.
\<close>

record slug_query =
  from_table :: string
  eq_slug :: string
  neq_id :: "string option"

definition probe_query :: "string \<Rightarrow> string option \<Rightarrow> string \<Rightarrow> slug_query" where
  "probe_query table excludeId s =
     \<lparr>from_table = table, eq_slug = s,
      neq_id = (if truthy_string excludeId then excludeId else None)\<rparr>"

text \<open>
  The loop of lines 21 to 39, for any store client \<open>single\<close>. It has no bound, so it
  is a partial function: \<open>None\<close> is the loop that never ends, \<open>Some (Inl _)\<close> a rejected
  probe, which nothing in \<open>generateSlug\<close> catches.
\<close>

partial_function (option) probe_loop ::
  "(slug_query \<Rightarrow> string response awaited) \<Rightarrow> string \<Rightarrow> string option \<Rightarrow> string \<Rightarrow> string
     \<Rightarrow> nat \<Rightarrow> (exception + string) option" where
  "probe_loop single table excludeId baseSlug slug counter =
     (case single (probe_query table excludeId slug) of
        Rejected \<Rightarrow> Some (Inl StoreException)
      | Fulfilled r \<Rightarrow>
          if error r \<noteq> None \<or> data r = None then Some (Inr slug)
          else probe_loop single table excludeId baseSlug
                 (baseSlug @ ''-'' @ Number_toString counter) (counter + 1))"

declare probe_loop.simps [code]

definition generateSlug ::
  "(slug_query \<Rightarrow> string response awaited) \<Rightarrow> string \<Rightarrow> string \<Rightarrow> string option
     \<Rightarrow> (exception + string) option" where
  "generateSlug single title table excludeId =
     probe_loop single table excludeId (normalize_title title) (normalize_title title) 1"

text \<open>
  A store that answers from its tables: a table is the list of its rows, of which the
  probe reads the identifier and the slug.
\<close>

record slug_row =
  row_id :: string
  row_slug :: string

definition matches_slug_query :: "slug_query \<Rightarrow> slug_row \<Rightarrow> bool" where
  "matches_slug_query q r =
     (row_slug r = eq_slug q \<and> (case neq_id q of None \<Rightarrow> True | Some e \<Rightarrow> row_id r \<noteq> e))"

definition table_single ::
  "(string \<Rightarrow> slug_row list) \<Rightarrow> slug_query \<Rightarrow> string response awaited" where
  "table_single db q =
     Fulfilled (single_of (map row_id (filter (matches_slug_query q) (db (from_table q)))))"

text \<open>The candidates in the order the loop probes them: the base, then \<open>-1\<close>, \<open>-2\<close>, ...\<close>

fun candidate :: "string \<Rightarrow> nat \<Rightarrow> string" where
  "candidate b 0 = b"
| "candidate b (Suc k) = b @ ''-'' @ Number_toString (Suc k)"

text \<open>
  What the loop makes of the answer to one probe (line 33): \<open>error || !data\<close> ends
  the loop, a row without an error continues it.
\<close>

definition reads_free :: "string response awaited \<Rightarrow> bool" where
  "reads_free a = (case a of Rejected \<Rightarrow> False | Fulfilled r \<Rightarrow> error r \<noteq> None \<or> data r = None)"

definition reads_taken :: "string response awaited \<Rightarrow> bool" where
  "reads_taken a = (case a of Rejected \<Rightarrow> False | Fulfilled r \<Rightarrow> error r = None \<and> data r \<noteq> None)"


text \<open>A store with one table.\<close>

definition single_table :: "string \<Rightarrow> slug_row list \<Rightarrow> string \<Rightarrow> slug_row list" where
  "single_table name rows t = (if t = name then rows else [])"

text \<open>
  Two stores that cannot be reached: one answers every probe with an error in the
  response, as the client does for a failed request, the other rejects the promise.
\<close>

definition failing_single :: "slug_query \<Rightarrow> string response awaited" where
  "failing_single q = Fulfilled \<lparr>data = None, error = Some QueryFailed\<rparr>"

definition rejecting_single :: "slug_query \<Rightarrow> string response awaited" where
  "rejecting_single q = Rejected"

text \<open>The number a string of decimal digits stands for.\<close>

definition digits_value :: "string \<Rightarrow> nat" where
  "digits_value s = foldl (\<lambda>a c. 10 * a + (char_code c - 48)) 0 s"

section \<open>The paginated post query\<close>

text \<open>
  A row of \<open>posts\<close>. A timestamp is the instant its ISO string names; the relations
  that the \<open>select\<close> joins to a row (author, category, tags) are left out.
\<close>

type_synonym timestamp = nat

record post =
  post_id :: string
  post_author_id :: string
  post_title :: string
  post_slug :: string
  post_content :: string
  post_excerpt :: "string option"
  post_featured_image :: "string option"
  post_category_id :: "string option"
  post_status :: string
  post_published_at :: "timestamp option"
  post_created_at :: timestamp
  post_updated_at :: timestamp

text \<open>
  The options of \<open>getPaginatedPosts\<close> (src/lib/db.js, lines 50 to 57): \<open>None\<close> is a
  field left out, for which the destructuring default applies. \<open>page\<close> and \<open>pageSize\<close>
  are integers here.
\<close>

record page_options =
  opt_page :: "int option"
  opt_pageSize :: "int option"
  opt_status :: "string option"
  opt_authorId :: "string option"
  opt_categoryId :: "string option"
  opt_search :: "string option"

text \<open>
  What the builder calls of lines 64 to 86 ask of the store: the \<open>eq\<close> filters, the
  text handed to \<open>.or(...)\<close> as it is written, the column of the descending order and
  the range, both ends included. The count is always \<open>exact\<close>.
\<close>

record posts_query =
  q_eq :: "(string \<times> string) list"
  q_or :: "string option"
  q_order_desc :: string
  q_range :: "int \<times> int"

record 'a counted_response = "'a response" +
  count :: "nat option"

text \<open>
  A number that \<open>Math.ceil(total / pageSize)\<close> can yield: a division by zero gives
  \<open>Infinity\<close> or \<open>NaN\<close>.
\<close>

datatype jsnumber = Num int | Infinity | NaN

record paginated =
  res_posts :: "post list"
  res_total :: nat
  res_page :: int
  res_pageSize :: int
  res_totalPages :: jsnumber

definition page_of :: "page_options \<Rightarrow> int" where
  "page_of opts = (case opt_page opts of None \<Rightarrow> 1 | Some p \<Rightarrow> p)"

definition pageSize_of :: "page_options \<Rightarrow> int" where
  "pageSize_of opts = (case opt_pageSize opts of None \<Rightarrow> 12 | Some s \<Rightarrow> s)"

definition status_of :: "page_options \<Rightarrow> string" where
  "status_of opts = (case opt_status opts of None \<Rightarrow> ''published'' | Some s \<Rightarrow> s)"

text \<open>\<open>if (v) query = query.eq(column, v)\<close>.\<close>

definition eq_if_truthy :: "string \<Rightarrow> string option \<Rightarrow> (string \<times> string) list" where
  "eq_if_truthy column v = (case v of None \<Rightarrow> [] | Some s \<Rightarrow> if s = [] then [] else [(column, s)])"

text \<open>The template literal of line 85.\<close>

definition search_filter :: "string \<Rightarrow> string" where
  "search_filter s = ''title.ilike.%'' @ s @ ''%,content.ilike.%'' @ s @ ''%,excerpt.ilike.%'' @ s @ ''%''"

definition posts_query_of :: "page_options \<Rightarrow> posts_query" where
  "posts_query_of opts =
     (let from = (page_of opts - 1) * pageSize_of opts;
          to = from + pageSize_of opts - 1
      in \<lparr>q_eq = [(''status'', status_of opts)]
                  @ eq_if_truthy ''author_id'' (opt_authorId opts)
                  @ eq_if_truthy ''category_id'' (opt_categoryId opts),
          q_or = (case opt_search opts of None \<Rightarrow> None
                  | Some s \<Rightarrow> if s = [] then None else Some (search_filter s)),
          q_order_desc = ''published_at'',
          q_range = (from, to)\<rparr>)"

definition Math_ceil_div :: "nat \<Rightarrow> int \<Rightarrow> jsnumber" where
  "Math_ceil_div n d =
     (if d = 0 then (if n = 0 then NaN else Infinity)
      else Num \<lceil>real n / real_of_int d\<rceil>)"

definition empty_result :: "page_options \<Rightarrow> paginated" where
  "empty_result opts =
     \<lparr>res_posts = [], res_total = 0, res_page = page_of opts, res_pageSize = pageSize_of opts,
      res_totalPages = Num 0\<rparr>"

text \<open>
  \<open>getPaginatedPosts\<close> for any store client \<open>run\<close>. The read stands inside
  \<open>try\<close>: a rejected promise reaches the \<open>catch\<close> of line 108, an error in the
  response the branch of line 90, and both return the same object, so the function has
  no exceptional result.
\<close>

definition getPaginatedPosts ::
  "(posts_query \<Rightarrow> post list counted_response awaited) \<Rightarrow> page_options \<Rightarrow> paginated" where
  "getPaginatedPosts run opts =
     (case run (posts_query_of opts) of
        Rejected \<Rightarrow> empty_result opts
      | Fulfilled r \<Rightarrow>
          if error r \<noteq> None then empty_result opts
          else \<lparr>res_posts = (case data r of None \<Rightarrow> [] | Some ps \<Rightarrow> ps),
                res_total = (case count r of None \<Rightarrow> 0 | Some n \<Rightarrow> n),
                res_page = page_of opts,
                res_pageSize = pageSize_of opts,
                res_totalPages = Math_ceil_div (case count r of None \<Rightarrow> 0 | Some n \<Rightarrow> n) (pageSize_of opts)\<rparr>)"

text \<open>
  A store that answers from its \<open>posts\<close> table. An \<open>eq\<close> filter holds when the column
  has exactly the value, so never on \<open>null\<close>.
\<close>

definition column_text :: "string \<Rightarrow> post \<Rightarrow> string option" where
  "column_text column p =
     (if column = ''id'' then Some (post_id p)
      else if column = ''author_id'' then Some (post_author_id p)
      else if column = ''title'' then Some (post_title p)
      else if column = ''slug'' then Some (post_slug p)
      else if column = ''content'' then Some (post_content p)
      else if column = ''excerpt'' then post_excerpt p
      else if column = ''featured_image'' then post_featured_image p
      else if column = ''category_id'' then post_category_id p
      else if column = ''status'' then Some (post_status p)
      else None)"

text \<open>
  \<open>LIKE\<close>: \<open>%\<close> stands for any text, \<open>_\<close> for any one character, and a backslash
  takes the next character of the pattern literally. (A pattern that ends in a lone
  backslash matches nothing here; the patterns of this program end in \<open>%\<close>.)
  \<open>ilike\<close> compares without regard to case, and the store reads \<open>*\<close> as \<open>%\<close>.
\<close>

fun like_match :: "string \<Rightarrow> string \<Rightarrow> bool" where
  "like_match [] t = (t = [])"
| "like_match (p # ps) [] = (p = CHR ''%'' \<and> like_match ps [])"
| "like_match (p # ps) (c # cs) =
     (if p = CHR ''%'' then like_match ps (c # cs) \<or> like_match (p # ps) cs
      else if p = CHR ''_'' then like_match ps cs
      else if p = CHR 0x5C then (case ps of [] \<Rightarrow> False | e # es \<Rightarrow> e = c \<and> like_match es cs)
      else p = c \<and> like_match ps cs)"

definition star_to_percent :: "string \<Rightarrow> string" where
  "star_to_percent s = map (\<lambda>c. if c = CHR ''*'' then CHR ''%'' else c) s"

definition ilike :: "string \<Rightarrow> string \<Rightarrow> bool" where
  "ilike pattern t = like_match (toLowerCase (star_to_percent pattern)) (toLowerCase t)"

text \<open>
  The store reads the text of \<open>.or(...)\<close> as conditions separated by commas, each
  \<open>column.ilike.pattern\<close>, and answers any other text with an error. (The other operators
  of the store's filter language do not occur in this program.)
\<close>

fun split_on :: "char \<Rightarrow> string \<Rightarrow> string list" where
  "split_on d [] = [[]]"
| "split_on d (c # cs) =
     (if c = d then [] # split_on d cs
      else (case split_on d cs of [] \<Rightarrow> [[c]] | w # ws \<Rightarrow> (c # w) # ws))"

definition parse_condition :: "string \<Rightarrow> (string \<times> string) option" where
  "parse_condition s =
     (let column = takeWhile (\<lambda>c. c \<noteq> CHR ''.'') s;
          rest = drop (Suc (length column)) s;
          operator = takeWhile (\<lambda>c. c \<noteq> CHR ''.'') rest;
          pattern = drop (Suc (length operator)) rest
      in if length column < length s \<and> length operator < length rest \<and> operator = ''ilike''
         then Some (column, pattern) else None)"

definition or_conditions :: "string \<Rightarrow> (string \<times> string) list option" where
  "or_conditions s = those (map parse_condition (split_on CHR '','' s))"

definition matches_eq :: "(string \<times> string) list \<Rightarrow> post \<Rightarrow> bool" where
  "matches_eq eqs p = list_all (\<lambda>(column, v). column_text column p = Some v) eqs"

definition matches_any :: "(string \<times> string) list \<Rightarrow> post \<Rightarrow> bool" where
  "matches_any conds p =
     list_ex (\<lambda>(column, pattern). case column_text column p of None \<Rightarrow> False
                                   | Some t \<Rightarrow> ilike pattern t) conds"

text \<open>
  \<open>.order('published_at', {ascending: false})\<close>: latest first, rows without a date
  before all others, rows of one date in the order of the table.
\<close>

fun comes_first :: "timestamp option \<Rightarrow> timestamp option \<Rightarrow> bool" where
  "comes_first None b = True"
| "comes_first (Some a) None = False"
| "comes_first (Some a) (Some b) = (b \<le> a)"

fun insert_desc :: "post \<Rightarrow> post list \<Rightarrow> post list" where
  "insert_desc p [] = [p]"
| "insert_desc p (q # qs) =
     (if comes_first (post_published_at p) (post_published_at q) then p # q # qs
      else q # insert_desc p qs)"

definition order_desc :: "post list \<Rightarrow> post list" where
  "order_desc ps = foldr insert_desc ps []"

text \<open>
  The rows a query matches, and the answer: the rows at the offsets \<open>from..to\<close> of the
  ordered matches (none when \<open>from\<close> is past the last), with the number of all matches
  as the count. A text in \<open>.or(...)\<close> that the store cannot read, or a range that is not
  one, is answered with an error.
\<close>

definition query_filter :: "posts_query \<Rightarrow> (post \<Rightarrow> bool) option" where
  "query_filter q =
     (case q_or q of
        None \<Rightarrow> Some (matches_eq (q_eq q))
      | Some s \<Rightarrow>
          (case or_conditions s of
             None \<Rightarrow> None
           | Some conds \<Rightarrow> Some (\<lambda>p. matches_eq (q_eq q) p \<and> matches_any conds p)))"

definition table_run :: "post list \<Rightarrow> posts_query \<Rightarrow> post list counted_response awaited" where
  "table_run tbl q =
     Fulfilled
       (case query_filter q of
          None \<Rightarrow> \<lparr>data = None, error = Some QueryFailed, count = None\<rparr>
        | Some f \<Rightarrow>
            (case q_range q of
               (from, to) \<Rightarrow>
                 if from < 0 \<or> to < from
                 then \<lparr>data = None, error = Some QueryFailed, count = None\<rparr>
                 else \<lparr>data = Some (take (nat (to - from + 1)) (drop (nat from) (order_desc (filter f tbl)))),
                       error = None, count = Some (length (filter f tbl))\<rparr>))"

text \<open>A published post, and the options when nothing is passed.\<close>

definition sample_post :: "string \<Rightarrow> timestamp \<Rightarrow> post" where
  "sample_post i t =
     \<lparr>post_id = i, post_author_id = ''u1'', post_title = ''abc'', post_slug = ''abc'',
      post_content = ''def'', post_excerpt = None, post_featured_image = None,
      post_category_id = Some ''c1'', post_status = ''published'',
      post_published_at = Some t, post_created_at = t, post_updated_at = t\<rparr>"

definition default_options :: page_options where
  "default_options = \<lparr>opt_page = None, opt_pageSize = None, opt_status = None,
      opt_authorId = None, opt_categoryId = None, opt_search = None\<rparr>"


text \<open>The characters with a meaning of their own in a \<open>LIKE\<close> pattern.\<close>

definition like_special :: "char \<Rightarrow> bool" where
  "like_special c = (c = CHR ''%'' \<or> c = CHR ''_'' \<or> c = CHR 0x5C)"

text \<open>
  A search text is plain when it has none of the characters that a \<open>LIKE\<close> pattern or
  the filter text reads as its own.
\<close>

definition plain_search :: "string \<Rightarrow> bool" where
  "plain_search s = list_all (\<lambda>c. \<not> like_special c \<and> c \<noteq> CHR ''*'' \<and> c \<noteq> CHR '','') s"


definition draft_post :: "string \<Rightarrow> post" where
  "draft_post i = (sample_post i 0)\<lparr>post_status := ''draft'', post_published_at := None\<rparr>"

text \<open>
  Two stores that cannot be read: one answers with an error in the response, the other
  rejects the promise.
\<close>

definition failing_run :: "posts_query \<Rightarrow> post list counted_response awaited" where
  "failing_run q = Fulfilled \<lparr>data = None, error = Some QueryFailed, count = None\<rparr>"

definition rejecting_run :: "posts_query \<Rightarrow> post list counted_response awaited" where
  "rejecting_run q = Rejected"


section \<open>Deleting a comment\<close>

record comment =
  comment_id :: string
  comment_post_id :: string
  comment_user_id :: string
  comment_content :: string
  comment_created_at :: timestamp
  comment_updated_at :: timestamp

text \<open>
  The two store calls of \<open>deleteComment\<close> (src/lib/db.js, lines 288 to 292 and 303 to
  306), for a store in state \<open>'s\<close>: the read of the owner of a comment, and the delete,
  which leaves the store in a new state.
\<close>

record 's comment_client =
  select_user_id :: "'s \<Rightarrow> string \<Rightarrow> string response awaited"
  delete_eq_id :: "'s \<Rightarrow> string \<Rightarrow> unit response awaited \<times> 's"

text \<open>
  \<open>deleteComment\<close>, with the state of the store it leaves. Both calls stand inside
  \<open>try\<close>: a rejected promise returns \<open>false\<close> from the \<open>catch\<close>.
\<close>

definition deleteComment ::
  "'s comment_client \<Rightarrow> 's \<Rightarrow> string \<Rightarrow> string \<Rightarrow> string \<Rightarrow> bool \<times> 's" where
  "deleteComment client s commentId userId userRole =
     (case select_user_id client s commentId of
        Rejected \<Rightarrow> (False, s)
      | Fulfilled r \<Rightarrow>
          if error r \<noteq> None \<or> data r = None then (False, s)
          else (case data r of
                  None \<Rightarrow> (False, s)
                | Some owner \<Rightarrow>
                    if userRole \<noteq> ''admin'' \<and> owner \<noteq> userId then (False, s)
                    else (case delete_eq_id client s commentId of
                            (Rejected, s') \<Rightarrow> (False, s')
                          | (Fulfilled d, s') \<Rightarrow> (if error d \<noteq> None then False else True, s'))))"

text \<open>A store that answers from its \<open>comments\<close> table, and deletes from it.\<close>

definition table_comments :: "comment list comment_client" where
  "table_comments =
     \<lparr>select_user_id = (\<lambda>tbl i. Fulfilled (single_of (map comment_user_id
                                    (filter (\<lambda>c. comment_id c = i) tbl)))),
      delete_eq_id = (\<lambda>tbl i. (Fulfilled \<lparr>data = None, error = None\<rparr>,
                                filter (\<lambda>c. comment_id c \<noteq> i) tbl))\<rparr>"

definition sample_comment :: "string \<Rightarrow> string \<Rightarrow> comment" where
  "sample_comment i u =
     \<lparr>comment_id = i, comment_post_id = ''p1'', comment_user_id = u, comment_content = ''hi'',
      comment_created_at = 5, comment_updated_at = 5\<rparr>"

section \<open>Validation\<close>

text \<open>
  A request body is modelled with the fields of the route's schema, each left out
  (\<open>None\<close>) or a string. A string is falsy when it is empty.
\<close>

datatype validation = Valid | Invalid string

text \<open>The whitespace of \<open>\s\<close> and of \<open>trim\<close>, among the code units below 256.\<close>

definition is_whitespace :: "char \<Rightarrow> bool" where
  "is_whitespace c = (let n = char_code c in (9 \<le> n \<and> n \<le> 13) \<or> n = 32 \<or> n = 160)"

text \<open>The class \<open>[^\s@]\<close>.\<close>

definition email_char :: "char \<Rightarrow> bool" where
  "email_char c = (\<not> is_whitespace c \<and> c \<noteq> CHR ''@'')"

text \<open>
  \<open>/^[^\s@]+@[^\s@]+\.[^\s@]+$/\<close>: a part without whitespace and \<open>@\<close>, then \<open>@\<close>,
  then a part of the same kind with a dot that is neither its first nor its last
  character.
\<close>

definition isValidEmail :: "string \<Rightarrow> bool" where
  "isValidEmail email =
     (let local_part = takeWhile email_char email;
          rest = dropWhile email_char email
      in local_part \<noteq> [] \<and>
         (case rest of
            [] \<Rightarrow> False
          | c # domain \<Rightarrow>
              c = CHR ''@'' \<and> list_all email_char domain
              \<and> list_ex (\<lambda>d. d = CHR ''.'') (butlast (tl domain))))"

definition isValidPassword :: "string option \<Rightarrow> validation" where
  "isValidPassword password =
     (case password of
        None \<Rightarrow> Invalid ''Password must be at least 6 characters long''
      | Some p \<Rightarrow> if length p < 6 then Invalid ''Password must be at least 6 characters long''
                  else Valid)"

text \<open>\<open>!v || v.trim().length === 0\<close>.\<close>

definition blank :: "string option \<Rightarrow> bool" where
  "blank v = (case v of None \<Rightarrow> True | Some s \<Rightarrow> list_all is_whitespace s)"

record registration =
  reg_name :: "string option"
  reg_email :: "string option"
  reg_password :: "string option"
  reg_role :: "string option"

definition validateRegistration :: "registration \<Rightarrow> validation" where
  "validateRegistration d =
     (if blank (reg_name d) then Invalid ''Name is required''
      else if (case reg_name d of None \<Rightarrow> False | Some n \<Rightarrow> 100 < length n)
        then Invalid ''Name must be less than 100 characters''
      else if (case reg_email d of None \<Rightarrow> True | Some e \<Rightarrow> e = [] \<or> \<not> isValidEmail e)
        then Invalid ''Valid email is required''
      else if isValidPassword (reg_password d) \<noteq> Valid then isValidPassword (reg_password d)
      else if (case reg_role d of None \<Rightarrow> False
               | Some r \<Rightarrow> r \<noteq> [] \<and> r \<notin> set [''admin'', ''author'', ''reader''])
        then Invalid ''Invalid role specified''
      else Valid)"



section \<open>Login and registration\<close>

text \<open>A row of \<open>users\<close>, and the row without its password, as the responses carry it.\<close>

record public_user =
  user_id :: string
  user_name :: string
  user_email :: string
  user_role :: string
  user_bio :: "string option"
  user_avatar_url :: string
  user_created_at :: timestamp
  user_updated_at :: timestamp

record user = public_user +
  user_password :: string

definition without_password :: "user \<Rightarrow> public_user" where
  "without_password u = public_user.truncate u"

record token_payload =
  tp_id :: string
  tp_email :: string
  tp_role :: string

text \<open>
  The JSON bodies of the two routes: \<open>{success: false, error}\<close> and
  \<open>{success: true, user, token, message}\<close>.
\<close>

datatype auth_body =
  Failure string
| Success public_user string string

record 'b http_response =
  http_status :: nat
  http_body :: 'b

text \<open>The response of the \<open>catch\<close> around each handler.\<close>

definition internal_error :: "auth_body http_response" where
  "internal_error = \<lparr>http_status = 500, http_body = Failure ''Internal server error''\<rparr>"



text \<open>The object that registration inserts (src/app/api/auth/register/route.js, lines 82 to 91).\<close>

record new_user =
  nu_name :: string
  nu_email :: string
  nu_password :: string
  nu_role :: string
  nu_bio :: "string option"
  nu_avatar_url :: string
  nu_created_at :: timestamp
  nu_updated_at :: timestamp

text \<open>\<open>role || 'reader'\<close>.\<close>

definition role_or_reader :: "string option \<Rightarrow> string" where
  "role_or_reader role = (case role of None \<Rightarrow> ''reader'' | Some r \<Rightarrow> if r = [] then ''reader'' else r)"

definition new_user_row :: "string \<Rightarrow> string \<Rightarrow> string \<Rightarrow> string option \<Rightarrow> timestamp \<Rightarrow> new_user" where
  "new_user_row name email hashedPassword role now =
     \<lparr>nu_name = name, nu_email = email, nu_password = hashedPassword,
      nu_role = role_or_reader role, nu_bio = None,
      nu_avatar_url = ''https://api.dicebear.com/7.x/avataaars/svg?seed='' @ email,
      nu_created_at = now, nu_updated_at = now\<rparr>"

text \<open>The two store calls of registration: lines 62 to 66 and 79 to 94.\<close>

record 's user_client =
  select_id_by_email :: "'s \<Rightarrow> string \<Rightarrow> string response awaited"
  insert_user :: "'s \<Rightarrow> new_user \<Rightarrow> user response awaited \<times> 's"

text \<open>
  \<open>POST /api/auth/register\<close>, with the state of the store it leaves. \<open>hash\<close> is
  \<open>bcrypt.hash\<close> with its ten rounds, \<open>now\<close> the time of the request.
\<close>

definition register_POST ::
  "'s user_client \<Rightarrow> (string \<Rightarrow> string) \<Rightarrow> (token_payload \<Rightarrow> string option) \<Rightarrow> timestamp
     \<Rightarrow> 's \<Rightarrow> registration option \<Rightarrow> auth_body http_response \<times> 's" where
  "register_POST client hash sign now s request_json =
     (case request_json of
        None \<Rightarrow> (internal_error, s)
      | Some body \<Rightarrow>
          (case validateRegistration body of
             Invalid e \<Rightarrow> (\<lparr>http_status = 400, http_body = Failure e\<rparr>, s)
           | Valid \<Rightarrow>
               (case (reg_name body, reg_email body, reg_password body) of
                  (Some name, Some email, Some password) \<Rightarrow>
                    (case select_id_by_email client s email of
                       Rejected \<Rightarrow> (internal_error, s)
                     | Fulfilled existing \<Rightarrow>
                         if data existing \<noteq> None
                         then (\<lparr>http_status = 400,
                                http_body = Failure ''User with this email already exists''\<rparr>, s)
                         else (case insert_user client s
                                      (new_user_row name email (hash password) (reg_role body) now) of
                                 (Rejected, s') \<Rightarrow> (internal_error, s')
                               | (Fulfilled r, s') \<Rightarrow>
                                   if error r \<noteq> None
                                   then (\<lparr>http_status = 500,
                                          http_body = Failure ''Failed to create user''\<rparr>, s')
                                   else (case data r of
                                           None \<Rightarrow> (internal_error, s')
                                         | Some u \<Rightarrow>
                                             (case sign \<lparr>tp_id = user_id u, tp_email = user_email u,
                                                          tp_role = user_role u\<rparr> of
                                                None \<Rightarrow> (internal_error, s')
                                              | Some token \<Rightarrow>
                                                  (\<lparr>http_status = 201,
                                                    http_body = Success (without_password u) token
                                                      ''User registered successfully''\<rparr>, s')))))
                | _ \<Rightarrow> (internal_error, s))))"

text \<open>
  A store that answers from its \<open>users\<close> table and stores what is inserted under the
  identifier \<open>fresh_id\<close>.
\<close>

definition stored_user :: "string \<Rightarrow> new_user \<Rightarrow> user" where
  "stored_user i n =
     \<lparr>user_id = i, user_name = nu_name n, user_email = nu_email n, user_role = nu_role n,
      user_bio = nu_bio n, user_avatar_url = nu_avatar_url n, user_created_at = nu_created_at n,
      user_updated_at = nu_updated_at n, user_password = nu_password n\<rparr>"

definition table_users :: "string \<Rightarrow> user list user_client" where
  "table_users fresh_id =
     \<lparr>select_id_by_email = (\<lambda>users email.
         Fulfilled (single_of (map user_id (filter (\<lambda>u. user_email u = email) users)))),
      insert_user = (\<lambda>users n.
         (Fulfilled \<lparr>data = Some (stored_user fresh_id n), error = None\<rparr>,
          users @ [stored_user fresh_id n]))\<rparr>"

text \<open>Requests and collaborators for the examples.\<close>

definition sample_registration :: "string option \<Rightarrow> registration" where
  "sample_registration role =
     \<lparr>reg_name = Some ''Ann'', reg_email = Some ''ann@example.org'',
      reg_password = Some ''secret1'', reg_role = role\<rparr>"

definition sample_hash :: "string \<Rightarrow> string" where
  "sample_hash p = ''$2a$10$'' @ rev p"


definition sample_sign :: "token_payload \<Rightarrow> string option" where
  "sample_sign p = Some (''token.'' @ tp_id p @ ''.'' @ tp_role p)"

definition sample_user :: user where
  "sample_user = stored_user ''u1'' (new_user_row ''Ann'' ''ann@example.org''
                    (sample_hash ''secret1'') None 7)"

section \<open>Creating and updating a post\<close>

text \<open>
  The body of \<open>POST /api/posts\<close> and of \<open>PUT /api/posts/{slug}\<close>: each field left
  out (\<open>None\<close>) or of the type the route's schema gives it.
\<close>

record post_body =
  pb_title :: "string option"
  pb_content :: "string option"
  pb_excerpt :: "string option"
  pb_featured_image :: "string option"
  pb_category_id :: "string option"
  pb_status :: "string option"
  pb_tags :: "string list option"

record request =
  req_authorization :: "string option"
  req_json :: "post_body option"

text \<open>\<open>validatePost\<close> (src/lib/validation.js, lines 87 to 112).\<close>

definition validatePost :: "post_body \<Rightarrow> validation" where
  \<open>validatePost d =
     (if blank (pb_title d) then Invalid ''Title is required''
      else if (case pb_title d of None \<Rightarrow> False | Some t \<Rightarrow> 200 < length t)
        then Invalid ''Title must be less than 200 characters''
      else if blank (pb_content d) then Invalid ''Content is required''
      else if (case pb_excerpt d of None \<Rightarrow> False | Some e \<Rightarrow> 300 < length e)
        then Invalid ''Excerpt must be less than 300 characters''
      else if (case pb_status d of None \<Rightarrow> False
               | Some s \<Rightarrow> s \<noteq> [] \<and> s \<notin> set [''draft'', ''published''])
        then Invalid ''Invalid status. Must be "draft" or "published"''
      else Valid)\<close>

text \<open>The store of the two handlers: the posts and the tags assigned to them.\<close>

record post_tag =
  pt_post_id :: string
  pt_tag_id :: string
  pt_created_at :: timestamp

record blog_store =
  store_posts :: "post list"
  store_post_tags :: "post_tag list"

text \<open>What \<open>generateSlug\<close> reads of the store: the identifier and the slug of every post.\<close>

definition slug_rows :: "blog_store \<Rightarrow> string \<Rightarrow> slug_row list" where
  "slug_rows s t =
     (if t = ''posts''
      then map (\<lambda>p. \<lparr>row_id = post_id p, row_slug = post_slug p\<rparr>) (store_posts s)
      else [])"

text \<open>The JSON bodies of the two handlers.\<close>

datatype post_reply =
  Refused string
| Done post string

text \<open>\<open>v || null\<close>.\<close>

definition or_null :: "string option \<Rightarrow> string option" where
  "or_null v = (case v of None \<Rightarrow> None | Some s \<Rightarrow> if s = [] then None else Some s)"

text \<open>
  The row that the insert of \<open>POST\<close> stores (src/unnamed/part_000, lines 410 to 423),
  under the identifier the store gives it. \<open>now\<close> is the time of the request.
\<close>

definition new_post_row :: "string \<Rightarrow> string \<Rightarrow> string \<Rightarrow> string \<Rightarrow> post_body \<Rightarrow> string \<Rightarrow> timestamp \<Rightarrow> post" where
  "new_post_row fresh_id author title content body slug now =
     \<lparr>post_id = fresh_id, post_author_id = author, post_title = title, post_slug = slug,
      post_content = content,
      post_excerpt = or_null (pb_excerpt body),
      post_featured_image = or_null (pb_featured_image body),
      post_category_id = or_null (pb_category_id body),
      post_status = (case or_null (pb_status body) of None \<Rightarrow> ''draft'' | Some s \<Rightarrow> s),
      post_published_at = (if pb_status body = Some ''published'' then Some now else None),
      post_created_at = now, post_updated_at = now\<rparr>"

definition tag_rows :: "string \<Rightarrow> string list \<Rightarrow> timestamp \<Rightarrow> post_tag list" where
  "tag_rows post tags now =
     map (\<lambda>t. \<lparr>pt_post_id = post, pt_tag_id = t, pt_created_at = now\<rparr>) tags"

definition unauthorized :: "string \<Rightarrow> post_reply http_response" where
  "unauthorized msg = \<lparr>http_status = 401, http_body = Refused msg\<rparr>"

definition server_error :: "string \<Rightarrow> post_reply http_response" where
  "server_error msg = \<lparr>http_status = 500, http_body = Refused msg\<rparr>"

text \<open>
  The token of a request: \<open>None\<close> without a header that starts with \<open>Bearer\<close> and a
  space, else what \<open>verifyToken\<close> makes of the rest of the header.
\<close>

definition bearer_claims ::
  "(string \<Rightarrow> token_payload option) \<Rightarrow> string option \<Rightarrow> token_payload option" where
  "bearer_claims verifyToken header =
     (case header of
        None \<Rightarrow> None
      | Some h \<Rightarrow> if take 7 h = ''Bearer '' then verifyToken (drop 7 h) else None)"

text \<open>
  \<open>POST /api/posts\<close> (src/unnamed/part_000, lines 368 to 467) against a store that
  answers from its tables and takes every write, with the state it leaves. The result
  is \<open>None\<close> when \<open>generateSlug\<close> does not return.
\<close>

definition posts_POST ::
  "(string \<Rightarrow> token_payload option) \<Rightarrow> timestamp \<Rightarrow> string \<Rightarrow> blog_store \<Rightarrow> request
     \<Rightarrow> (post_reply http_response \<times> blog_store) option" where
  "posts_POST verifyToken now fresh_id s req =
     (case bearer_claims verifyToken (req_authorization req) of
        None \<Rightarrow> Some (unauthorized ''Unauthorized'', s)
      | Some decoded \<Rightarrow>
          if tp_role decoded \<noteq> ''admin'' \<and> tp_role decoded \<noteq> ''author''
          then Some (unauthorized ''Unauthorized'', s)
          else
            (case req_json req of
               None \<Rightarrow> Some (server_error ''Internal server error'', s)
             | Some body \<Rightarrow>
                 (case validatePost body of
                    Invalid e \<Rightarrow> Some (\<lparr>http_status = 400, http_body = Refused e\<rparr>, s)
                  | Valid \<Rightarrow>
                      (case (pb_title body, pb_content body) of
                         (Some title, Some content) \<Rightarrow>
                           (case generateSlug (table_single (slug_rows s)) title ''posts'' None of
                              None \<Rightarrow> None
                            | Some (Inl e) \<Rightarrow> Some (server_error ''Internal server error'', s)
                            | Some (Inr slug) \<Rightarrow>
                                (let newPost = new_post_row fresh_id (tp_id decoded) title content
                                                 body slug now;
                                     tags = (case pb_tags body of None \<Rightarrow> [] | Some ts \<Rightarrow> ts)
                                 in Some (\<lparr>http_status = 201,
                                           http_body = Done newPost ''Post created successfully''\<rparr>,
                                          \<lparr>store_posts = store_posts s @ [newPost],
                                           store_post_tags = store_post_tags s
                                             @ tag_rows fresh_id tags now\<rparr>)))
                       | _ \<Rightarrow> Some (server_error ''Internal server error'', s)))))"

text \<open>
  \<open>updateData\<close> of \<open>PUT\<close> (src/unnamed/part_001, lines 185 to 206): the columns the
  update writes, \<open>None\<close> for a column it leaves alone.
\<close>

record post_update =
  upd_updated_at :: timestamp
  upd_title :: "string option"
  upd_slug :: "string option"
  upd_content :: "string option"
  upd_excerpt :: "string option"
  upd_featured_image :: "string option"
  upd_category_id :: "string option"
  upd_status :: "string option"
  upd_published_at :: "timestamp option"

definition update_data :: "timestamp \<Rightarrow> post \<Rightarrow> post_body \<Rightarrow> string option \<Rightarrow> post_update" where
  "update_data now existingPost body newSlug =
     \<lparr>upd_updated_at = now,
      upd_title = or_null (pb_title body),
      upd_slug = newSlug,
      upd_content = pb_content body,
      upd_excerpt = pb_excerpt body,
      upd_featured_image = pb_featured_image body,
      upd_category_id = pb_category_id body,
      upd_status = pb_status body,
      upd_published_at =
        (if pb_status body = Some ''published'' \<and> post_status existingPost \<noteq> ''published''
         then Some now else None)\<rparr>"

text \<open>\<open>.update(updateData)\<close> on one row.\<close>

definition apply_update :: "post_update \<Rightarrow> post \<Rightarrow> post" where
  "apply_update u p =
     p\<lparr>post_updated_at := upd_updated_at u,
       post_title := (case upd_title u of None \<Rightarrow> post_title p | Some t \<Rightarrow> t),
       post_slug := (case upd_slug u of None \<Rightarrow> post_slug p | Some t \<Rightarrow> t),
       post_content := (case upd_content u of None \<Rightarrow> post_content p | Some t \<Rightarrow> t),
       post_excerpt := (case upd_excerpt u of None \<Rightarrow> post_excerpt p | Some t \<Rightarrow> Some t),
       post_featured_image :=
         (case upd_featured_image u of None \<Rightarrow> post_featured_image p | Some t \<Rightarrow> Some t),
       post_category_id :=
         (case upd_category_id u of None \<Rightarrow> post_category_id p | Some t \<Rightarrow> Some t),
       post_status := (case upd_status u of None \<Rightarrow> post_status p | Some t \<Rightarrow> t),
       post_published_at :=
         (case upd_published_at u of None \<Rightarrow> post_published_at p | Some t \<Rightarrow> Some t)\<rparr>"

definition update_where_id :: "string \<Rightarrow> post_update \<Rightarrow> post list \<Rightarrow> post list" where
  "update_where_id i u ps = map (\<lambda>p. if post_id p = i then apply_update u p else p) ps"

definition replace_tags :: "string \<Rightarrow> string list option \<Rightarrow> timestamp \<Rightarrow> post_tag list \<Rightarrow> post_tag list" where
  "replace_tags post tags now rows =
     (case tags of
        None \<Rightarrow> rows
      | Some ts \<Rightarrow> filter (\<lambda>r. pt_post_id r \<noteq> post) rows @ tag_rows post ts now)"

text \<open>
  The slug of an update: a new one when the title is truthy and differs from the stored
  title (lines 189 to 195). \<open>None\<close> when \<open>generateSlug\<close> does not return.
\<close>

definition update_slug :: "blog_store \<Rightarrow> post \<Rightarrow> post_body \<Rightarrow> (exception + string option) option" where
  "update_slug s existingPost body =
     (case or_null (pb_title body) of
        None \<Rightarrow> Some (Inr None)
      | Some title \<Rightarrow>
          if title = post_title existingPost then Some (Inr None)
          else (case generateSlug (table_single (slug_rows s)) title ''posts''
                       (Some (post_id existingPost)) of
                  None \<Rightarrow> None
                | Some (Inl e) \<Rightarrow> Some (Inl e)
                | Some (Inr slug) \<Rightarrow> Some (Inr (Some slug))))"

text \<open>
  \<open>PUT /api/posts/{slug}\<close> (src/unnamed/part_001, lines 134 to 261) against the same
  store. An update that \<open>.single()\<close> answers with an error, for not having written
  exactly one row, is not kept by the store.
\<close>

definition posts_PUT ::
  "(string \<Rightarrow> token_payload option) \<Rightarrow> timestamp \<Rightarrow> blog_store \<Rightarrow> string \<Rightarrow> request
     \<Rightarrow> (post_reply http_response \<times> blog_store) option" where
  "posts_PUT verifyToken now s slug req =
     (case bearer_claims verifyToken (req_authorization req) of
        None \<Rightarrow> Some (unauthorized ''Unauthorized'', s)
      | Some decoded \<Rightarrow>
          (case req_json req of
             None \<Rightarrow> Some (server_error ''Internal server error'', s)
           | Some body \<Rightarrow>
               (case data (single_of (filter (\<lambda>p. post_slug p = slug) (store_posts s))) of
                  None \<Rightarrow> Some (\<lparr>http_status = 404, http_body = Refused ''Post not found''\<rparr>, s)
                | Some existingPost \<Rightarrow>
                    if tp_role decoded \<noteq> ''admin'' \<and> post_author_id existingPost \<noteq> tp_id decoded
                    then Some (unauthorized ''Unauthorized to edit this post'', s)
                    else
                      (case update_slug s existingPost body of
                         None \<Rightarrow> None
                       | Some (Inl e) \<Rightarrow> Some (server_error ''Internal server error'', s)
                       | Some (Inr newSlug) \<Rightarrow>
                           (let updated = update_where_id (post_id existingPost)
                                            (update_data now existingPost body newSlug) (store_posts s)
                            in (case data (single_of (filter (\<lambda>p. post_id p = post_id existingPost)
                                                       updated)) of
                                  None \<Rightarrow> Some (server_error ''Failed to update post'', s)
                                | Some updatedPost \<Rightarrow>
                                    Some (\<lparr>http_status = 200,
                                           http_body = Done updatedPost ''Post updated successfully''\<rparr>,
                                          \<lparr>store_posts = updated,
                                           store_post_tags =
                                             replace_tags (post_id existingPost) (pb_tags body) now
                                               (store_post_tags s)\<rparr>)))))))"

text \<open>
  The states of the store that the two handlers reach from the empty store. The store
  gives a new post an identifier that no post has.
\<close>

inductive reachable :: "(string \<Rightarrow> token_payload option) \<Rightarrow> blog_store \<Rightarrow> bool"
  for verifyToken :: "string \<Rightarrow> token_payload option" where
  start: "reachable verifyToken \<lparr>store_posts = [], store_post_tags = []\<rparr>"
| create: "reachable verifyToken s \<Longrightarrow> fresh_id \<notin> post_id ` set (store_posts s) \<Longrightarrow>
     posts_POST verifyToken now fresh_id s req = Some (reply, s') \<Longrightarrow> reachable verifyToken s'"
| update: "reachable verifyToken s \<Longrightarrow>
     posts_PUT verifyToken now s slug req = Some (reply, s') \<Longrightarrow> reachable verifyToken s'"

text \<open>Tokens and requests for the examples.\<close>

definition sample_verify :: "string \<Rightarrow> token_payload option" where
  "sample_verify token =
     (if token = ''ann'' then Some \<lparr>tp_id = ''u1'', tp_email = ''ann@example.org'', tp_role = ''author''\<rparr>
      else None)"

definition sample_body :: "string option \<Rightarrow> post_body" where
  "sample_body status =
     \<lparr>pb_title = Some ''Hello World'', pb_content = Some ''text'', pb_excerpt = None,
      pb_featured_image = None, pb_category_id = None, pb_status = status, pb_tags = None\<rparr>"

definition status_only :: "string \<Rightarrow> post_body" where
  "status_only status =
     \<lparr>pb_title = None, pb_content = None, pb_excerpt = None, pb_featured_image = None,
      pb_category_id = None, pb_status = Some status, pb_tags = None\<rparr>"

definition as_ann :: "post_body \<Rightarrow> request" where
  "as_ann body = \<lparr>req_authorization = Some ''Bearer ann'', req_json = Some body\<rparr>"

definition empty_store :: blog_store where
  "empty_store = \<lparr>store_posts = [], store_post_tags = []\<rparr>"

definition hello_post :: "string \<Rightarrow> timestamp option \<Rightarrow> timestamp \<Rightarrow> post" where
  "hello_post status published_at updated_at =
     \<lparr>post_id = ''p1'', post_author_id = ''u1'', post_title = ''Hello World'',
      post_slug = ''hello-world'', post_content = ''text'', post_excerpt = None,
      post_featured_image = None, post_category_id = None, post_status = status,
      post_published_at = published_at, post_created_at = 10, post_updated_at = updated_at\<rparr>"

definition only_post :: "post \<Rightarrow> blog_store" where
  "only_post p = \<lparr>store_posts = [p], store_post_tags = []\<rparr>"

text \<open>Every published post of the store has its date of publication.\<close>

definition dated_when_published :: "blog_store \<Rightarrow> bool" where
  "dated_when_published s =
     list_all (\<lambda>p. post_status p = ''published'' \<longrightarrow> post_published_at p \<noteq> None) (store_posts s)"


section \<open>Properties of the slug generator\<close>

lemma digits_value_toString: "digits_value (Number_toString n) = n"
proof (induction n rule: Number_toString.induct)
  case (1 n)
  show ?case
  proof (cases "n < 10")
    case True
    then show ?thesis
      by (subst Number_toString.simps) (simp add: digits_value_def char_code_def)
  next
    case False
    with 1 have ih: "digits_value (Number_toString (n div 10)) = n div 10" by simp
    have "n mod 10 < 10" by simp
    then have m: "(48 + n mod 10) mod 256 = 48 + n mod 10"
      by simp
    have "digits_value (Number_toString n) = 10 * digits_value (Number_toString (n div 10)) + n mod 10"
      using False by (subst Number_toString.simps) (simp add: digits_value_def char_code_def m)
    then show ?thesis using ih by simp
  qed
qed

lemma Number_toString_inj: "Number_toString m = Number_toString n \<Longrightarrow> m = n"
  by (metis digits_value_toString)

lemma candidate_inj: "candidate b j = candidate b k \<Longrightarrow> j = k"
  by (cases j; cases k) (auto dest: Number_toString_inj)


lemma probe_loop_free:
  "reads_free (single (probe_query table excludeId s)) \<Longrightarrow>
     probe_loop single table excludeId b s c = Some (Inr s)"
  by (subst probe_loop.simps) (auto simp: reads_free_def split: awaited.splits)

lemma probe_loop_taken:
  "reads_taken (single (probe_query table excludeId s)) \<Longrightarrow>
     probe_loop single table excludeId b s c =
     probe_loop single table excludeId b (b @ ''-'' @ Number_toString c) (c + 1)"
  by (subst probe_loop.simps) (auto simp: reads_taken_def split: awaited.splits)

lemma probe_loop_rejected:
  "single (probe_query table excludeId s) = Rejected \<Longrightarrow>
     probe_loop single table excludeId b s c = Some (Inl StoreException)"
  by (subst probe_loop.simps) simp

lemma probe_loop_first_free:
  assumes "reads_free (single (probe_query table excludeId (candidate b k)))"
    and "\<forall>j. c \<le> j \<and> j < k \<longrightarrow> reads_taken (single (probe_query table excludeId (candidate b j)))"
    and "c \<le> k"
  shows "probe_loop single table excludeId b (candidate b c) (Suc c) = Some (Inr (candidate b k))"
  using assms
proof (induction "k - c" arbitrary: c)
  case 0
  then have "c = k" by simp
  with 0 show ?case by (simp add: probe_loop_free)
next
  case (Suc d)
  then have lt: "c < k" by simp
  with Suc.prems have "reads_taken (single (probe_query table excludeId (candidate b c)))"
    by simp
  then have "probe_loop single table excludeId b (candidate b c) (Suc c) =
             probe_loop single table excludeId b (candidate b (Suc c)) (Suc (Suc c))"
    by (simp add: probe_loop_taken)
  moreover have "probe_loop single table excludeId b (candidate b (Suc c)) (Suc (Suc c)) =
                 Some (Inr (candidate b k))"
  proof (rule Suc.hyps(1))
    show "d = k - Suc c" using Suc.hyps(2) by simp
    show "reads_free (single (probe_query table excludeId (candidate b k)))" by (rule Suc.prems(1))
    show "\<forall>j. Suc c \<le> j \<and> j < k \<longrightarrow> reads_taken (single (probe_query table excludeId (candidate b j)))"
      using Suc.prems(2) by simp
    show "Suc c \<le> k" using lt by simp
  qed
  ultimately show ?case by simp
qed





lemma reads_free_single_of: "reads_free (Fulfilled (single_of xs)) \<longleftrightarrow> length xs \<noteq> 1"
  by (cases xs rule: list.exhaust; cases "tl xs") (auto simp: reads_free_def single_of_def split: list.splits)

lemma reads_taken_single_of: "reads_taken (Fulfilled (single_of xs)) \<longleftrightarrow> length xs = 1"
  by (cases xs rule: list.exhaust; cases "tl xs") (auto simp: reads_taken_def single_of_def split: list.splits)

lemma table_free_iff:
  "reads_free (table_single db (probe_query table excludeId s)) \<longleftrightarrow>
     length (filter (matches_slug_query (probe_query table excludeId s)) (db table)) \<noteq> 1"
  by (simp add: table_single_def reads_free_single_of probe_query_def)

lemma table_taken_iff:
  "reads_taken (table_single db (probe_query table excludeId s)) \<longleftrightarrow>
     \<not> reads_free (table_single db (probe_query table excludeId s))"
  by (simp add: table_single_def reads_free_single_of reads_taken_single_of)


lemma candidate_not_in_table: "\<exists>k. candidate b k \<notin> row_slug ` set rows"
proof -
  have "inj (candidate b)" by (rule injI) (rule candidate_inj)
  then have "infinite (range (candidate b))"
    using finite_imageD [of "candidate b" UNIV] by auto
  moreover have "finite (row_slug ` set rows)" by simp
  ultimately have "\<not> range (candidate b) \<subseteq> row_slug ` set rows"
    using finite_subset by blast
  then show ?thesis by blast
qed

lemma table_some_free: "\<exists>k. reads_free (table_single db (probe_query table excludeId (candidate b k)))"
proof -
  obtain k where "candidate b k \<notin> row_slug ` set (db table)"
    using candidate_not_in_table by blast
  then have "filter (matches_slug_query (probe_query table excludeId (candidate b k))) (db table) = []"
    by (force simp: filter_empty_conv matches_slug_query_def probe_query_def)
  then have "reads_free (table_single db (probe_query table excludeId (candidate b k)))"
    by (simp add: table_free_iff)
  then show ?thesis ..
qed

lemma generateSlug_table_least:
  "\<exists>k. generateSlug (table_single db) title table excludeId
          = Some (Inr (candidate (normalize_title title) k))
     \<and> reads_free (table_single db (probe_query table excludeId (candidate (normalize_title title) k)))
     \<and> (\<forall>j<k. \<not> reads_free (table_single db (probe_query table excludeId (candidate (normalize_title title) j))))"
proof -
  let ?b = "normalize_title title"
  let ?free = "\<lambda>k. reads_free (table_single db (probe_query table excludeId (candidate ?b k)))"
  define k where "k = (LEAST k. ?free k)"
  have ex: "\<exists>k. ?free k" by (rule table_some_free)
  then have fk: "?free k" unfolding k_def by (rule LeastI_ex)
  have lt: "\<forall>j<k. \<not> ?free j" unfolding k_def using not_less_Least by blast
  then have "\<forall>j. 0 \<le> j \<and> j < k \<longrightarrow> reads_taken (table_single db (probe_query table excludeId (candidate ?b j)))"
    by (simp add: table_taken_iff)
  with fk have "probe_loop (table_single db) table excludeId ?b (candidate ?b 0) (Suc 0) = Some (Inr (candidate ?b k))"
    by (intro probe_loop_first_free) auto
  then have "generateSlug (table_single db) title table excludeId = Some (Inr (candidate ?b k))"
    by (simp add: generateSlug_def)
  with fk lt show ?thesis by blast
qed


lemma probe_loop_first_rejected:
  assumes "single (probe_query table excludeId (candidate b k)) = Rejected"
    and "\<forall>j. c \<le> j \<and> j < k \<longrightarrow> reads_taken (single (probe_query table excludeId (candidate b j)))"
    and "c \<le> k"
  shows "probe_loop single table excludeId b (candidate b c) (Suc c) = Some (Inl StoreException)"
  using assms
proof (induction "k - c" arbitrary: c)
  case 0
  then have "c = k" by simp
  with 0 show ?case by (simp add: probe_loop_rejected)
next
  case (Suc d)
  then have lt: "c < k" by simp
  with Suc.prems have "reads_taken (single (probe_query table excludeId (candidate b c)))"
    by simp
  then have "probe_loop single table excludeId b (candidate b c) (Suc c) =
             probe_loop single table excludeId b (candidate b (Suc c)) (Suc (Suc c))"
    by (simp add: probe_loop_taken)
  moreover have "probe_loop single table excludeId b (candidate b (Suc c)) (Suc (Suc c)) =
                 Some (Inl StoreException)"
  proof (rule Suc.hyps(1))
    show "d = k - Suc c" using Suc.hyps(2) by simp
    show "single (probe_query table excludeId (candidate b k)) = Rejected" by (rule Suc.prems(1))
    show "\<forall>j. Suc c \<le> j \<and> j < k \<longrightarrow> reads_taken (single (probe_query table excludeId (candidate b j)))"
      using Suc.prems(2) by simp
    show "Suc c \<le> k" using lt by simp
  qed
  ultimately show ?case by simp
qed






text \<open>The normalized title, in words.\<close>

lemma slug_char_not_hyphen: "is_slug_char c \<Longrightarrow> c \<noteq> CHR ''-''"
  by (auto simp: is_slug_char_def char_code_def)

lemma replace_runs_word:
  "\<forall>c \<in> set w. is_slug_char c \<Longrightarrow> replace_runs (w @ s) = w @ replace_runs s"
  by (induction w) auto

lemma slug_words_skip: "slug_words (dropWhile (\<lambda>d. \<not> is_slug_char d) s) = slug_words s"
  by (induction s) auto

lemma replace_runs_start:
  "replace_runs s = [] \<longleftrightarrow> s = []"
  by (cases s) auto

lemma replace_runs_hd_slug:
  "is_slug_char c \<Longrightarrow> replace_runs (c # cs) = c # replace_runs cs"
  by simp

lemma strip_leading_replace_runs:
  "dropWhile (\<lambda>c. c = CHR ''-'') (replace_runs s)
     = replace_runs (dropWhile (\<lambda>d. \<not> is_slug_char d) s)"
proof (cases s)
  case Nil
  then show ?thesis by simp
next
  case (Cons c cs)
  show ?thesis
  proof (cases "is_slug_char c")
    case True
    with Cons show ?thesis by (simp add: slug_char_not_hyphen)
  next
    case False
    let ?t = "dropWhile (\<lambda>d. \<not> is_slug_char d) cs"
    have "dropWhile (\<lambda>c. c = CHR ''-'') (replace_runs ?t) = replace_runs ?t"
    proof (cases ?t)
      case Nil
      show ?thesis unfolding Nil by simp
    next
      case (Cons d ds)
      then have "is_slug_char d" using hd_dropWhile [of "\<lambda>d. \<not> is_slug_char d" cs] by auto
      then show ?thesis unfolding Cons by (simp add: slug_char_not_hyphen)
    qed
    with Cons False show ?thesis by simp
  qed
qed

lemma strip_trailing_append:
  "strip_trailing (a @ b) = (if strip_trailing b = [] then strip_trailing a else a @ strip_trailing b)"
  by (auto simp: strip_trailing_def dropWhile_append)

lemma strip_trailing_word:
  "w \<noteq> [] \<Longrightarrow> \<forall>c \<in> set w. is_slug_char c \<Longrightarrow> strip_trailing w = w"
  by (cases w rule: rev_cases) (auto simp: strip_trailing_def slug_char_not_hyphen)

lemma strip_trailing_hyphen_Cons:
  "strip_trailing (CHR ''-'' # x) = (if strip_trailing x = [] then [] else CHR ''-'' # strip_trailing x)"
  using strip_trailing_append [of "[CHR ''-'']" x] by (simp add: strip_trailing_def)

lemma strip_trailing_replace_runs:
  "s = [] \<or> is_slug_char (hd s) \<Longrightarrow> strip_trailing (replace_runs s) = join_hyphen (slug_words s)"
proof (induction s rule: length_induct)
  case (1 s)
  show ?case
  proof (cases s)
    case Nil
    then show ?thesis by (simp add: strip_trailing_def)
  next
    case (Cons c cs)
    with 1 have c: "is_slug_char c" by simp
    let ?w = "c # takeWhile is_slug_char cs"
    let ?rest = "dropWhile is_slug_char cs"
    let ?t = "dropWhile (\<lambda>d. \<not> is_slug_char d) ?rest"
    have w: "?w \<noteq> []" "\<forall>x \<in> set ?w. is_slug_char x"
      using c by (auto dest: set_takeWhileD)
    have s: "s = ?w @ ?rest" using Cons by simp
    have rr: "replace_runs s = ?w @ replace_runs ?rest"
      using replace_runs_word [OF w(2), of ?rest] s by simp
    have words: "slug_words s = ?w # slug_words ?t"
      using Cons c by (simp add: slug_words_skip)
    have len: "length ?t < length s"
      using Cons by (simp add: less_Suc_eq_le le_trans [OF length_dropWhile_le length_dropWhile_le])
    have start: "?t = [] \<or> is_slug_char (hd ?t)"
      using hd_dropWhile [of "\<lambda>d. \<not> is_slug_char d" ?rest] by auto
    from 1 len start have ih: "strip_trailing (replace_runs ?t) = join_hyphen (slug_words ?t)"
      by blast
    show ?thesis
    proof (cases ?rest)
      case Nil
      have "replace_runs s = ?w" using rr unfolding Nil by simp
      moreover have "slug_words s = [?w]" using words unfolding Nil by simp
      ultimately show ?thesis using strip_trailing_word [OF w] by simp
    next
      case (Cons d ds)
      then have d: "\<not> is_slug_char d" using hd_dropWhile [of is_slug_char cs] by auto
      with Cons have r: "replace_runs ?rest = CHR ''-'' # replace_runs ?t" by simp
      show ?thesis
      proof (cases ?t)
        case Nil
        have "replace_runs ?rest = [CHR ''-'']" using r unfolding Nil by simp
        then have "strip_trailing (replace_runs ?rest) = []"
          by (simp add: strip_trailing_def)
        then have "strip_trailing (replace_runs s) = ?w"
          using strip_trailing_word [OF w] by (simp only: rr strip_trailing_append) simp
        moreover have "slug_words s = [?w]" using words unfolding Nil by simp
        ultimately show ?thesis by simp
      next
        case (Cons e es)
        then have e: "is_slug_char e" using start by simp
        with Cons obtain v vs where v: "slug_words ?t = v # vs" by (cases "slug_words ?t") auto
        from Cons e have "replace_runs ?t \<noteq> []" by (simp add: replace_runs_start)
        have ne: "join_hyphen (slug_words ?t) \<noteq> []"
        proof -
          from Cons e have "hd (slug_words ?t) \<noteq> []" by simp
          with v show ?thesis by (cases vs) auto
        qed
        then have "strip_trailing (replace_runs ?rest) = CHR ''-'' # join_hyphen (slug_words ?t)"
          using r ih by (simp add: strip_trailing_hyphen_Cons)
        then have "strip_trailing (replace_runs s) = ?w @ CHR ''-'' # join_hyphen (slug_words ?t)"
          by (simp only: rr strip_trailing_append) simp
        with words v show ?thesis by simp
      qed
    qed
  qed
qed

lemma normalize_title_words:
  "normalize_title title = join_hyphen (slug_words (toLowerCase title))"
proof -
  let ?s = "toLowerCase title"
  let ?t = "dropWhile (\<lambda>d. \<not> is_slug_char d) ?s"
  have "?t = [] \<or> is_slug_char (hd ?t)"
    using hd_dropWhile [of "\<lambda>d. \<not> is_slug_char d" ?s] by auto
  then have "strip_trailing (replace_runs ?t) = join_hyphen (slug_words ?t)"
    by (rule strip_trailing_replace_runs)
  then show ?thesis
    by (simp add: normalize_title_def strip_hyphens_def strip_leading_replace_runs
        slug_words_skip strip_trailing_def)
qed

lemma generateSlug_first_probe_free:
  "reads_free (single (probe_query table excludeId (normalize_title title))) \<Longrightarrow>
     generateSlug single title table excludeId = Some (Inr (normalize_title title))"
  by (simp add: generateSlug_def probe_loop_free)

text \<open>
  Claim C9. Against a table in which no row has the normalized title as its slug,
  \<open>generateSlug\<close> returns exactly the normalized title (lowercased, every run of
  characters outside \<open>[a-z0-9]\<close> replaced by one hyphen, leading and trailing hyphens
  removed); \<open>generateSlug("My Title")\<close> against an empty table returns \<open>"my-title"\<close>.
  The normalized title is the words of the lowercased title, joined by single hyphens.
\<close>

theorem generateSlug_returns_free_base:
  "(normalize_title title \<notin> row_slug ` set (db table) \<longrightarrow>
      generateSlug (table_single db) title table excludeId = Some (Inr (normalize_title title)))
   \<and> generateSlug (table_single (single_table ''posts'' [])) ''My Title'' ''posts'' None
       = Some (Inr ''my-title'')
   \<and> normalize_title title = join_hyphen (slug_words (toLowerCase title))"
proof (intro conjI)
  show "normalize_title title = join_hyphen (slug_words (toLowerCase title))"
    by (rule normalize_title_words)
  show "normalize_title title \<notin> row_slug ` set (db table) \<longrightarrow>
      generateSlug (table_single db) title table excludeId = Some (Inr (normalize_title title))"
  proof
    assume "normalize_title title \<notin> row_slug ` set (db table)"
    then have "filter (matches_slug_query (probe_query table excludeId (normalize_title title))) (db table) = []"
      by (force simp: filter_empty_conv matches_slug_query_def probe_query_def)
    then have "reads_free (table_single db (probe_query table excludeId (normalize_title title)))"
      by (simp add: table_free_iff)
    then show "generateSlug (table_single db) title table excludeId = Some (Inr (normalize_title title))"
      by (rule generateSlug_first_probe_free)
  qed
  show "generateSlug (table_single (single_table ''posts'' [])) ''My Title'' ''posts'' None
       = Some (Inr ''my-title'')"
    by code_simp
qed

theorem generateSlug_returns_free_base_witness:
  "normalize_title ''Hello World'' \<notin> row_slug ` set (single_table ''posts''
        [\<lparr>row_id = ''7'', row_slug = ''my-title''\<rparr>] ''posts'')
   \<and> generateSlug (table_single (single_table ''posts'' [\<lparr>row_id = ''7'', row_slug = ''my-title''\<rparr>]))
        ''Hello World'' ''posts'' None = Some (Inr ''hello-world'')"
proof -
  have n: "normalize_title ''Hello World'' = ''hello-world''" by code_simp
  have h: "normalize_title ''Hello World'' \<notin> row_slug ` set (single_table ''posts''
        [\<lparr>row_id = ''7'', row_slug = ''my-title''\<rparr>] ''posts'')"
    by (simp add: n single_table_def)
  from generateSlug_returns_free_base
         [where db = "single_table ''posts'' [\<lparr>row_id = ''7'', row_slug = ''my-title''\<rparr>]"
          and table = "''posts''" and title = "''Hello World''" and excludeId = None] h n
  show ?thesis by simp
qed

text \<open>
  Claim C2, as amended. \<open>generateSlug\<close> does not tell a failed query from a row that is
  not there: for every store and every title, the first candidate whose probe is answered
  with an error of any kind, or without data, is returned as the slug. Only a probe
  whose promise is rejected stops \<open>generateSlug\<close>, with the exception.
\<close>

theorem generateSlug_error_read_as_free:
  assumes "\<forall>j<k. reads_taken (single (probe_query table excludeId (candidate (normalize_title title) j)))"
  shows "(single (probe_query table excludeId (candidate (normalize_title title) k)) = Fulfilled r
            \<and> (error r \<noteq> None \<or> data r = None)
          \<longrightarrow> generateSlug single title table excludeId
                = Some (Inr (candidate (normalize_title title) k)))
       \<and> (single (probe_query table excludeId (candidate (normalize_title title) k)) = Rejected
          \<longrightarrow> generateSlug single title table excludeId = Some (Inl StoreException))"
proof (intro conjI impI)
  assume "single (probe_query table excludeId (candidate (normalize_title title) k)) = Fulfilled r
            \<and> (error r \<noteq> None \<or> data r = None)"
  then have "reads_free (single (probe_query table excludeId (candidate (normalize_title title) k)))"
    by (auto simp: reads_free_def)
  with assms have "probe_loop single table excludeId (normalize_title title)
      (candidate (normalize_title title) 0) (Suc 0) = Some (Inr (candidate (normalize_title title) k))"
    by (intro probe_loop_first_free) auto
  then show "generateSlug single title table excludeId = Some (Inr (candidate (normalize_title title) k))"
    by (simp add: generateSlug_def)
next
  assume "single (probe_query table excludeId (candidate (normalize_title title) k)) = Rejected"
  with assms have "probe_loop single table excludeId (normalize_title title)
      (candidate (normalize_title title) 0) (Suc 0) = Some (Inl StoreException)"
    by (intro probe_loop_first_rejected [where k = k]) auto
  then show "generateSlug single title table excludeId = Some (Inl StoreException)"
    by (simp add: generateSlug_def)
qed

theorem generateSlug_error_read_as_free_witness:
  "generateSlug failing_single ''My Title'' ''posts'' None = Some (Inr (candidate (normalize_title ''My Title'') 0))
   \<and> generateSlug rejecting_single ''My Title'' ''posts'' None = Some (Inl StoreException)"
proof
  have t: "\<forall>j<0::nat. reads_taken (failing_single (probe_query ''posts'' None (candidate (normalize_title ''My Title'') j)))"
    by simp
  have a: "failing_single (probe_query ''posts'' None (candidate (normalize_title ''My Title'') 0))
             = Fulfilled \<lparr>data = None, error = Some QueryFailed\<rparr>"
    by (simp add: failing_single_def)
  from generateSlug_error_read_as_free [OF t, of "\<lparr>data = None, error = Some QueryFailed\<rparr>"] a
  show "generateSlug failing_single ''My Title'' ''posts'' None = Some (Inr (candidate (normalize_title ''My Title'') 0))"
    by simp
next
  have t: "\<forall>j<0::nat. reads_taken (rejecting_single (probe_query ''posts'' None (candidate (normalize_title ''My Title'') j)))"
    by simp
  have a: "rejecting_single (probe_query ''posts'' None (candidate (normalize_title ''My Title'') 0)) = Rejected"
    by (simp add: rejecting_single_def)
  from generateSlug_error_read_as_free [OF t, of "\<lparr>data = None, error = None\<rparr>"] a
  show "generateSlug rejecting_single ''My Title'' ''posts'' None = Some (Inl StoreException)"
    by simp
qed

text \<open>
  Claim C2 as stated fails: a probe answered with \<open>QueryFailed\<close> ends the loop, and the
  candidate is returned as if it were free.
\<close>

theorem generateSlug_query_failed_counterexample:
  "failing_single (probe_query ''posts'' None ''my-title'')
     = Fulfilled \<lparr>data = None, error = Some QueryFailed\<rparr>
   \<and> generateSlug failing_single ''My Title'' ''posts'' None = Some (Inr ''my-title'')"
proof
  show "failing_single (probe_query ''posts'' None ''my-title'')
     = Fulfilled \<lparr>data = None, error = Some QueryFailed\<rparr>"
    by (simp add: failing_single_def)
  show "generateSlug failing_single ''My Title'' ''posts'' None = Some (Inr ''my-title'')"
    by code_simp
qed

section \<open>Properties of the paginated post query\<close>

lemma like_match_literal:
  "\<forall>c \<in> set s. \<not> like_special c \<Longrightarrow>
     like_match (s @ ps) t \<longleftrightarrow> (\<exists>r. t = s @ r \<and> like_match ps r)"
proof (induction s arbitrary: t)
  case Nil
  then show ?case by simp
next
  case (Cons a s)
  then have a: "a \<noteq> CHR ''%''" "a \<noteq> CHR ''_''" "a \<noteq> CHR 0x5C"
    by (auto simp: like_special_def)
  from Cons have ih: "\<And>t. like_match (s @ ps) t \<longleftrightarrow> (\<exists>r. t = s @ r \<and> like_match ps r)"
    by simp
  show ?case
  proof (cases t)
    case Nil
    with a show ?thesis by simp
  next
    case (Cons c cs)
    with a ih show ?thesis by auto
  qed
qed

lemma like_match_percent:
  "like_match (CHR ''%'' # ps) t \<longleftrightarrow> (\<exists>u v. t = u @ v \<and> like_match ps v)"
proof (induction t)
  case Nil
  then show ?case by simp
next
  case (Cons c cs)
  have "(\<exists>u v. c # cs = u @ v \<and> like_match ps v)
        \<longleftrightarrow> like_match ps (c # cs) \<or> (\<exists>u v. cs = u @ v \<and> like_match ps v)"
    by (auto simp: Cons_eq_append_conv)
  with Cons show ?case by simp
qed

lemma like_match_contains:
  assumes "\<forall>c \<in> set s. \<not> like_special c"
  shows "like_match (CHR ''%'' # s @ ''%'') t \<longleftrightarrow> sublist s t"
proof -
  have "like_match ''%'' r" for r
    by (simp add: like_match_percent) 
  then have "like_match (s @ ''%'') v \<longleftrightarrow> (\<exists>r. v = s @ r)" for v
    by (simp add: like_match_literal [OF assms])
  then have "like_match (CHR ''%'' # s @ ''%'') t \<longleftrightarrow> (\<exists>u v. t = u @ v \<and> (\<exists>r. v = s @ r))"
    by (simp add: like_match_percent)
  also have "\<dots> \<longleftrightarrow> sublist s t"
    unfolding sublist_def by blast
  finally show ?thesis .
qed

lemma set_insert_desc: "set (insert_desc p qs) = insert p (set qs)"
  by (induction qs) auto

lemma length_insert_desc: "length (insert_desc p qs) = Suc (length qs)"
  by (induction qs) auto

lemma set_order_desc: "set (order_desc ps) = set ps"
  by (induction ps) (auto simp: order_desc_def set_insert_desc)

lemma length_order_desc: "length (order_desc ps) = length ps"
  by (induction ps) (auto simp: order_desc_def length_insert_desc)





lemma take_drop_nth:
  "take n (drop a xs) = map (\<lambda>i. xs ! i) [a ..< min (a + n) (length xs)]"
  by (rule nth_equalityI) auto

lemma q_range_posts_query_of:
  "q_range (posts_query_of opts) =
     ((page_of opts - 1) * pageSize_of opts, page_of opts * pageSize_of opts - 1)"
  by (simp add: posts_query_of_def Let_def algebra_simps)

lemma getPaginatedPosts_table:
  assumes p: "1 \<le> page_of opts" and s: "1 \<le> pageSize_of opts"
    and f: "query_filter (posts_query_of opts) = Some f"
  shows "getPaginatedPosts (table_run tbl) opts =
         \<lparr>res_posts = map (\<lambda>i. order_desc (filter f tbl) ! i)
              [nat ((page_of opts - 1) * pageSize_of opts)
                 ..< min (nat (page_of opts * pageSize_of opts)) (length (filter f tbl))],
          res_total = length (filter f tbl),
          res_page = page_of opts,
          res_pageSize = pageSize_of opts,
          res_totalPages = Num \<lceil>real (length (filter f tbl)) / real_of_int (pageSize_of opts)\<rceil>\<rparr>"
proof -
  let ?from = "(page_of opts - 1) * pageSize_of opts"
  let ?to = "page_of opts * pageSize_of opts - 1"
  have from0: "0 \<le> ?from" using p s by simp
  have le: "?from \<le> ?to"
  proof -
    have "?to - ?from = pageSize_of opts - 1" by (simp add: algebra_simps)
    with s show ?thesis by linarith
  qed
  have n: "nat (?to - ?from + 1) = nat (pageSize_of opts)" by (simp add: algebra_simps)
  have e: "nat ?from + nat (pageSize_of opts) = nat (page_of opts * pageSize_of opts)"
  proof -
    have "?from + pageSize_of opts = page_of opts * pageSize_of opts" by (simp add: algebra_simps)
    with from0 s show ?thesis by (metis nat_add_distrib zero_le_one order_trans)
  qed
  have run: "table_run tbl (posts_query_of opts) =
      Fulfilled \<lparr>data = Some (take (nat (pageSize_of opts)) (drop (nat ?from) (order_desc (filter f tbl)))),
                 error = None, count = Some (length (filter f tbl))\<rparr>"
    using from0 le n by (simp add: table_run_def f q_range_posts_query_of)
  have "pageSize_of opts \<noteq> 0" using s by simp
  then show ?thesis
    by (simp add: getPaginatedPosts_def run Math_ceil_div_def take_drop_nth e length_order_desc)
qed




lemma getPaginatedPosts_empty_table:
  assumes "1 \<le> page_of opts" and "1 \<le> pageSize_of opts"
  shows "getPaginatedPosts (table_run []) opts = empty_result opts"
proof (cases "query_filter (posts_query_of opts)")
  case None
  then show ?thesis
    by (simp add: getPaginatedPosts_def table_run_def)
next
  case (Some f)
  from getPaginatedPosts_table [OF assms Some, of "[]"] show ?thesis
    by (simp add: empty_result_def)
qed

text \<open>
  Claim C5. Whatever the options and the store: when the read fails, by a rejected
  promise or by an error in the response, \<open>getPaginatedPosts\<close> returns no posts, a total
  of 0 and 0 pages, with the page and the page size it was asked for. Nothing of the
  failure is in the result: it is the result against a table without posts.
\<close>

theorem getPaginatedPosts_store_failure:
  assumes "run (posts_query_of opts) = Rejected
           \<or> (\<exists>r. run (posts_query_of opts) = Fulfilled r \<and> error r \<noteq> None)"
  shows "getPaginatedPosts run opts =
           \<lparr>res_posts = [], res_total = 0, res_page = page_of opts,
            res_pageSize = pageSize_of opts, res_totalPages = Num 0\<rparr>
       \<and> (1 \<le> page_of opts \<and> 1 \<le> pageSize_of opts \<longrightarrow>
            getPaginatedPosts run opts = getPaginatedPosts (table_run []) opts)"
proof -
  from assms have "getPaginatedPosts run opts = empty_result opts"
    by (auto simp: getPaginatedPosts_def)
  then show ?thesis
    by (simp add: getPaginatedPosts_empty_table) (simp add: empty_result_def)
qed

theorem getPaginatedPosts_store_failure_witness:
  "getPaginatedPosts failing_run (default_options\<lparr>opt_page := Some 3, opt_pageSize := Some 5\<rparr>) =
     \<lparr>res_posts = [], res_total = 0, res_page = 3, res_pageSize = 5, res_totalPages = Num 0\<rparr>
   \<and> getPaginatedPosts rejecting_run (default_options\<lparr>opt_page := Some 3, opt_pageSize := Some 5\<rparr>) =
     \<lparr>res_posts = [], res_total = 0, res_page = 3, res_pageSize = 5, res_totalPages = Num 0\<rparr>
   \<and> getPaginatedPosts failing_run (default_options\<lparr>opt_page := Some 3, opt_pageSize := Some 5\<rparr>) =
     getPaginatedPosts (table_run []) (default_options\<lparr>opt_page := Some 3, opt_pageSize := Some 5\<rparr>)"
proof -
  let ?o = "default_options\<lparr>opt_page := Some 3, opt_pageSize := Some 5\<rparr>"
  have p: "page_of ?o = 3" and s: "pageSize_of ?o = 5"
    by (simp_all add: page_of_def pageSize_of_def default_options_def)
  have a: "failing_run (posts_query_of ?o) = Rejected
           \<or> (\<exists>r. failing_run (posts_query_of ?o) = Fulfilled r \<and> error r \<noteq> None)"
    by (simp add: failing_run_def)
  have b: "rejecting_run (posts_query_of ?o) = Rejected
           \<or> (\<exists>r. rejecting_run (posts_query_of ?o) = Fulfilled r \<and> error r \<noteq> None)"
    by (simp add: rejecting_run_def)
  have ps: "1 \<le> page_of ?o \<and> 1 \<le> pageSize_of ?o" by (simp add: p s)
  note fa = getPaginatedPosts_store_failure [where run = failing_run and opts = "?o", OF a]
  note fb = getPaginatedPosts_store_failure [where run = rejecting_run and opts = "?o", OF b]
  from fa have 1: "getPaginatedPosts failing_run ?o =
     \<lparr>res_posts = [], res_total = 0, res_page = 3, res_pageSize = 5, res_totalPages = Num 0\<rparr>"
    by (simp add: p s)
  from fb have 2: "getPaginatedPosts rejecting_run ?o =
     \<lparr>res_posts = [], res_total = 0, res_page = 3, res_pageSize = 5, res_totalPages = Num 0\<rparr>"
    by (simp add: p s)
  from fa ps have 3: "getPaginatedPosts failing_run ?o = getPaginatedPosts (table_run []) ?o"
    by blast
  from 1 2 3 show ?thesis by blast
qed


lemma split_on_no_delimiter: "d \<notin> set a \<Longrightarrow> split_on d a = [a]"
  by (induction a) auto

lemma split_on_first: "d \<notin> set a \<Longrightarrow> split_on d (a @ d # rest) = a # split_on d rest"
  by (induction a) auto

lemma parse_condition_title: "parse_condition (''title.ilike.'' @ pat) = Some (''title'', pat)"
  by (simp add: parse_condition_def)

lemma parse_condition_content: "parse_condition (''content.ilike.'' @ pat) = Some (''content'', pat)"
  by (simp add: parse_condition_def)

lemma parse_condition_excerpt: "parse_condition (''excerpt.ilike.'' @ pat) = Some (''excerpt'', pat)"
  by (simp add: parse_condition_def)

lemma or_conditions_search_filter:
  assumes "CHR '','' \<notin> set s"
  shows "or_conditions (search_filter s) =
         Some [(''title'', CHR ''%'' # s @ ''%''), (''content'', CHR ''%'' # s @ ''%''),
               (''excerpt'', CHR ''%'' # s @ ''%'')]"
proof -
  let ?pat = "CHR ''%'' # s @ ''%''"
  have c: "CHR '','' \<notin> set (''title.ilike.'' @ ?pat)" "CHR '','' \<notin> set (''content.ilike.'' @ ?pat)"
    "CHR '','' \<notin> set (''excerpt.ilike.'' @ ?pat)"
    using assms by auto
  have "search_filter s = (''title.ilike.'' @ ?pat) @ CHR '','' # (''content.ilike.'' @ ?pat)
          @ CHR '','' # (''excerpt.ilike.'' @ ?pat)"
    by (simp add: search_filter_def)
  then have "split_on CHR '','' (search_filter s) =
      [''title.ilike.'' @ ?pat, ''content.ilike.'' @ ?pat, ''excerpt.ilike.'' @ ?pat]"
    by (simp only: split_on_first [OF c(1)] split_on_first [OF c(2)] split_on_no_delimiter [OF c(3)])
  then show ?thesis
    by (simp only: or_conditions_def list.map parse_condition_title parse_condition_content
        parse_condition_excerpt those.simps option.case map_option_case)
qed

lemma toLowerCase_unit_percent: "toLowerCase_unit CHR ''%'' = CHR ''%''"
  by (simp add: toLowerCase_unit_def char_code_def)

lemma toLowerCase_unit_not_special:
  assumes "\<not> like_special c"
  shows "\<not> like_special (toLowerCase_unit c)"
proof (cases "toLowerCase_unit c = c")
  case True
  with assms show ?thesis by simp
next
  case False
  then have r: "(65 \<le> char_code c \<and> char_code c \<le> 90) \<or> (192 \<le> char_code c \<and> char_code c \<le> 222)"
    and l: "toLowerCase_unit c = char_of (char_code c + 32)"
    by (auto simp: toLowerCase_unit_def Let_def split: if_splits)
  from r have "(char_code c + 32) mod 256 = char_code c + 32" by auto
  then have "char_code (toLowerCase_unit c) = char_code c + 32"
    by (simp add: l char_code_def)
  with r have "char_code (toLowerCase_unit c) \<ge> 97" by auto
  then show ?thesis
    by (auto simp: like_special_def char_code_def)
qed

lemma ilike_contains:
  assumes "plain_search s"
  shows "ilike (CHR ''%'' # s @ ''%'') t \<longleftrightarrow> sublist (toLowerCase s) (toLowerCase t)"
proof -
  from assms have nostar: "\<forall>c \<in> set s. c \<noteq> CHR ''*''" and nosp: "\<forall>c \<in> set s. \<not> like_special c"
    by (auto simp: plain_search_def list_all_iff)
  from nostar have "map (\<lambda>c. if c = CHR ''*'' then CHR ''%'' else c) s = s"
    by (induction s) auto
  then have "star_to_percent (CHR ''%'' # s @ ''%'') = CHR ''%'' # s @ ''%''"
    by (simp add: star_to_percent_def)
  then have "toLowerCase (star_to_percent (CHR ''%'' # s @ ''%'')) = CHR ''%'' # toLowerCase s @ ''%''"
    by (simp add: toLowerCase_def toLowerCase_unit_percent)
  moreover from nosp have "\<forall>c \<in> set (toLowerCase s). \<not> like_special c"
    by (auto simp: toLowerCase_def toLowerCase_unit_not_special)
  ultimately show ?thesis
    by (simp add: ilike_def like_match_contains)
qed


lemma returned_post_matches:
  assumes "p \<in> set (res_posts (getPaginatedPosts (table_run tbl) opts))"
  shows "\<exists>f. query_filter (posts_query_of opts) = Some f \<and> f p \<and> p \<in> set tbl"
proof (cases "query_filter (posts_query_of opts)")
  case None
  with assms show ?thesis
    by (simp add: getPaginatedPosts_def table_run_def empty_result_def)
next
  case (Some f)
  obtain a b where r: "q_range (posts_query_of opts) = (a, b)" by (cases "q_range (posts_query_of opts)")
  show ?thesis
  proof (cases "a < 0 \<or> b < a")
    case True
    with assms Some r show ?thesis
      by (simp add: getPaginatedPosts_def table_run_def empty_result_def)
  next
    case False
    with assms Some r have "p \<in> set (take (nat (b - a + 1)) (drop (nat a) (order_desc (filter f tbl))))"
      by (simp add: getPaginatedPosts_def table_run_def)
    then have "p \<in> set (order_desc (filter f tbl))"
      by (meson in_set_takeD in_set_dropD)
    then have "f p \<and> p \<in> set tbl" by (simp add: set_order_desc)
    with Some show ?thesis by simp
  qed
qed

lemma matches_eq_append: "matches_eq (xs @ ys) p \<longleftrightarrow> matches_eq xs p \<and> matches_eq ys p"
  by (simp add: matches_eq_def)

lemma query_filter_eq:
  assumes "query_filter q = Some f" and "f p"
  shows "matches_eq (q_eq q) p"
  using assms by (auto simp: query_filter_def split: option.splits)

lemma query_filter_or:
  assumes "query_filter q = Some f" and "f p" and "q_or q = Some s" and "or_conditions s = Some conds"
  shows "matches_any conds p"
  using assms by (auto simp: query_filter_def split: option.splits)

text \<open>
  Claim C6, as amended. Every post that \<open>getPaginatedPosts\<close> returns against a table has
  the status asked for; the author asked for, when \<open>authorId\<close> is truthy; the category
  asked for, when \<open>categoryId\<close> is truthy; and, when \<open>search\<close> is truthy and plain, the
  search text within its title, its content or its excerpt, case disregarded.
\<close>

theorem getPaginatedPosts_filters_hold:
  assumes "p \<in> set (res_posts (getPaginatedPosts (table_run tbl) opts))"
  shows "post_status p = status_of opts
     \<and> (\<forall>a. opt_authorId opts = Some a \<and> a \<noteq> [] \<longrightarrow> post_author_id p = a)
     \<and> (\<forall>c. opt_categoryId opts = Some c \<and> c \<noteq> [] \<longrightarrow> post_category_id p = Some c)
     \<and> (\<forall>s. opt_search opts = Some s \<and> s \<noteq> [] \<and> plain_search s \<longrightarrow>
          sublist (toLowerCase s) (toLowerCase (post_title p))
          \<or> sublist (toLowerCase s) (toLowerCase (post_content p))
          \<or> (\<exists>e. post_excerpt p = Some e \<and> sublist (toLowerCase s) (toLowerCase e)))"
proof -
  let ?q = "posts_query_of opts"
  from returned_post_matches [OF assms] obtain f
    where f: "query_filter ?q = Some f" and fp: "f p" by blast
  have eqs: "matches_eq (q_eq ?q) p" using f fp by (rule query_filter_eq)
  have "q_eq ?q = [(''status'', status_of opts)] @ eq_if_truthy ''author_id'' (opt_authorId opts)
                    @ eq_if_truthy ''category_id'' (opt_categoryId opts)"
    by (simp add: posts_query_of_def Let_def)
  with eqs have st: "matches_eq [(''status'', status_of opts)] p"
    and au: "matches_eq (eq_if_truthy ''author_id'' (opt_authorId opts)) p"
    and ca: "matches_eq (eq_if_truthy ''category_id'' (opt_categoryId opts)) p"
    by (simp_all only: matches_eq_append)
  from st have 1: "post_status p = status_of opts"
    by (simp add: matches_eq_def column_text_def)
  from au have 2: "\<forall>a. opt_authorId opts = Some a \<and> a \<noteq> [] \<longrightarrow> post_author_id p = a"
    by (auto simp: matches_eq_def column_text_def eq_if_truthy_def)
  from ca have 3: "\<forall>c. opt_categoryId opts = Some c \<and> c \<noteq> [] \<longrightarrow> post_category_id p = Some c"
    by (auto simp: matches_eq_def column_text_def eq_if_truthy_def)
  have 4: "sublist (toLowerCase s) (toLowerCase (post_title p))
          \<or> sublist (toLowerCase s) (toLowerCase (post_content p))
          \<or> (\<exists>e. post_excerpt p = Some e \<and> sublist (toLowerCase s) (toLowerCase e))"
    if s: "opt_search opts = Some s \<and> s \<noteq> [] \<and> plain_search s" for s
  proof -
    from s have qor: "q_or ?q = Some (search_filter s)"
      by (simp add: posts_query_of_def Let_def)
    from s have "CHR '','' \<notin> set s" by (auto simp: plain_search_def list_all_iff)
    from query_filter_or [OF f fp qor or_conditions_search_filter [OF this]]
    have "ilike (CHR ''%'' # s @ ''%'') (post_title p)
          \<or> ilike (CHR ''%'' # s @ ''%'') (post_content p)
          \<or> (\<exists>e. post_excerpt p = Some e \<and> ilike (CHR ''%'' # s @ ''%'') e)"
      by (auto simp: matches_any_def column_text_def split: option.splits)
    with s show ?thesis by (simp add: ilike_contains)
  qed
  from 1 2 3 4 show ?thesis by blast
qed

theorem getPaginatedPosts_filters_hold_witness:
  "sample_post ''p1'' 1 \<in> set (res_posts (getPaginatedPosts
       (table_run [draft_post ''p0'', sample_post ''p1'' 1])
       (default_options\<lparr>opt_authorId := Some ''u1'', opt_categoryId := Some ''c1'',
                        opt_search := Some ''B''\<rparr>)))
   \<and> post_status (sample_post ''p1'' 1) = ''published''
   \<and> post_author_id (sample_post ''p1'' 1) = ''u1''
   \<and> post_category_id (sample_post ''p1'' 1) = Some ''c1''
   \<and> plain_search ''B''
   \<and> (sublist (toLowerCase ''B'') (toLowerCase (post_title (sample_post ''p1'' 1)))
      \<or> sublist (toLowerCase ''B'') (toLowerCase (post_content (sample_post ''p1'' 1)))
      \<or> (\<exists>e. post_excerpt (sample_post ''p1'' 1) = Some e \<and> sublist (toLowerCase ''B'') (toLowerCase e)))"
proof -
  let ?o = "default_options\<lparr>opt_authorId := Some ''u1'', opt_categoryId := Some ''c1'',
                        opt_search := Some ''B''\<rparr>"
  have m: "sample_post ''p1'' 1 \<in> set (res_posts (getPaginatedPosts
       (table_run [draft_post ''p0'', sample_post ''p1'' 1]) ?o))"
    by code_simp
  have pl: "plain_search ''B''" by code_simp
  have o: "status_of ?o = ''published''" "opt_authorId ?o = Some ''u1''"
    "opt_categoryId ?o = Some ''c1''" "opt_search ?o = Some ''B''"
    by (simp_all add: status_of_def default_options_def)
  from getPaginatedPosts_filters_hold [OF m] o pl m show ?thesis by simp
qed

text \<open>
  Claim C6 as stated fails for a search text with a pattern character: the search \<open>_\<close>
  returns a post that has no underscore in its title, content or excerpt.
\<close>

theorem getPaginatedPosts_search_pattern_counterexample:
  "sample_post ''p1'' 1 \<in> set (res_posts (getPaginatedPosts (table_run [sample_post ''p1'' 1])
       (default_options\<lparr>opt_search := Some ''_''\<rparr>)))
   \<and> \<not> sublist (toLowerCase ''_'') (toLowerCase (post_title (sample_post ''p1'' 1)))
   \<and> \<not> sublist (toLowerCase ''_'') (toLowerCase (post_content (sample_post ''p1'' 1)))
   \<and> post_excerpt (sample_post ''p1'' 1) = None"
  by code_simp

section \<open>Properties of deleting a comment\<close>

lemma table_comment_exists:
  "filter (\<lambda>c. comment_id c = i) tbl = [c] \<Longrightarrow>
     select_user_id table_comments tbl i
       = Fulfilled \<lparr>data = Some (comment_user_id c), error = None\<rparr>"
  by (simp add: table_comments_def single_of_def)

lemma table_comment_missing:
  "filter (\<lambda>c. comment_id c = i) tbl = [] \<Longrightarrow>
     select_user_id table_comments tbl i
       = Fulfilled \<lparr>data = None, error = Some NotSingleRow\<rparr>"
  by (simp add: table_comments_def single_of_def)

lemma table_comment_delete:
  "delete_eq_id table_comments tbl i
     = (Fulfilled \<lparr>data = None, error = None\<rparr>, filter (\<lambda>c. comment_id c \<noteq> i) tbl)"
  by (simp add: table_comments_def)

lemma deleteComment_admin:
  assumes "select_user_id client s commentId = Fulfilled \<lparr>data = Some owner, error = None\<rparr>"
    and "delete_eq_id client s commentId = (Fulfilled d, s')" and "error d = None"
  shows "deleteComment client s commentId userId ''admin'' = (True, s')"
  using assms by (simp add: deleteComment_def)

lemma deleteComment_not_authorized:
  assumes "select_user_id client s commentId = Fulfilled \<lparr>data = Some owner, error = None\<rparr>"
    and "userRole \<noteq> ''admin''" and "owner \<noteq> userId"
  shows "deleteComment client s commentId userId userRole = (False, s)"
  using assms by (simp add: deleteComment_def)

lemma deleteComment_not_found:
  assumes "select_user_id client s commentId = Fulfilled r" and "error r \<noteq> None \<or> data r = None"
  shows "deleteComment client s commentId userId userRole = (False, s)"
  using assms by (auto simp: deleteComment_def)

text \<open>
  Claim C7. For every store: when the comment is read and the delete succeeds,
  \<open>deleteComment\<close> returns true for the role \<open>admin\<close>, whoever \<open>userId\<close> is; when the
  comment is read, the role is not \<open>admin\<close> and \<open>userId\<close> is not the comment's
  \<open>user_id\<close>, it returns false and leaves the store as it was; when the comment is not
  found it returns false as well, so the caller cannot tell the two. Against a table:
  an admin deletes the comment with the identifier, and in the two other cases the table
  is unchanged.
\<close>

theorem deleteComment_authorization:
  "(select_user_id client s commentId = Fulfilled \<lparr>data = Some owner, error = None\<rparr>
      \<and> delete_eq_id client s commentId = (Fulfilled d, s') \<and> error d = None
    \<longrightarrow> deleteComment client s commentId userId ''admin'' = (True, s'))
   \<and> (select_user_id client s commentId = Fulfilled \<lparr>data = Some owner, error = None\<rparr>
      \<and> userRole \<noteq> ''admin'' \<and> owner \<noteq> userId
    \<longrightarrow> deleteComment client s commentId userId userRole = (False, s))
   \<and> (select_user_id client s commentId = Fulfilled r \<and> (error r \<noteq> None \<or> data r = None)
    \<longrightarrow> deleteComment client s commentId userId userRole = (False, s))
   \<and> (filter (\<lambda>c. comment_id c = commentId) tbl = [c]
    \<longrightarrow> deleteComment table_comments tbl commentId userId ''admin''
          = (True, filter (\<lambda>c. comment_id c \<noteq> commentId) tbl))
   \<and> (filter (\<lambda>c. comment_id c = commentId) tbl = [c]
      \<and> userRole \<noteq> ''admin'' \<and> comment_user_id c \<noteq> userId
    \<longrightarrow> deleteComment table_comments tbl commentId userId userRole = (False, tbl))
   \<and> (filter (\<lambda>c. comment_id c = commentId) tbl = []
    \<longrightarrow> deleteComment table_comments tbl commentId userId userRole = (False, tbl))"
proof (intro conjI impI)
  assume "select_user_id client s commentId = Fulfilled \<lparr>data = Some owner, error = None\<rparr>
      \<and> delete_eq_id client s commentId = (Fulfilled d, s') \<and> error d = None"
  then show "deleteComment client s commentId userId ''admin'' = (True, s')"
    by (simp add: deleteComment_admin)
next
  assume "select_user_id client s commentId = Fulfilled \<lparr>data = Some owner, error = None\<rparr>
      \<and> userRole \<noteq> ''admin'' \<and> owner \<noteq> userId"
  then show "deleteComment client s commentId userId userRole = (False, s)"
    by (simp add: deleteComment_not_authorized)
next
  assume "select_user_id client s commentId = Fulfilled r \<and> (error r \<noteq> None \<or> data r = None)"
  then show "deleteComment client s commentId userId userRole = (False, s)"
    by (simp add: deleteComment_not_found)
next
  assume "filter (\<lambda>c. comment_id c = commentId) tbl = [c]"
  then show "deleteComment table_comments tbl commentId userId ''admin''
          = (True, filter (\<lambda>c. comment_id c \<noteq> commentId) tbl)"
    by (intro deleteComment_admin [where d = "\<lparr>data = None, error = None\<rparr>"])
       (simp_all add: table_comment_exists table_comment_delete)
next
  assume "filter (\<lambda>c. comment_id c = commentId) tbl = [c]
      \<and> userRole \<noteq> ''admin'' \<and> comment_user_id c \<noteq> userId"
  then show "deleteComment table_comments tbl commentId userId userRole = (False, tbl)"
    by (intro deleteComment_not_authorized [where owner = "comment_user_id c"])
       (simp_all add: table_comment_exists)
next
  assume "filter (\<lambda>c. comment_id c = commentId) tbl = []"
  then show "deleteComment table_comments tbl commentId userId userRole = (False, tbl)"
    by (intro deleteComment_not_found [where r = "\<lparr>data = None, error = Some NotSingleRow\<rparr>"])
       (simp_all add: table_comment_missing)
qed

theorem deleteComment_authorization_witness:
  "deleteComment table_comments [sample_comment ''c1'' ''u1'', sample_comment ''c2'' ''u2'']
       ''c1'' ''u9'' ''admin''
     = (True, [sample_comment ''c2'' ''u2''])
   \<and> deleteComment table_comments [sample_comment ''c1'' ''u1'', sample_comment ''c2'' ''u2'']
       ''c1'' ''u9'' ''reader''
     = (False, [sample_comment ''c1'' ''u1'', sample_comment ''c2'' ''u2''])
   \<and> deleteComment table_comments [sample_comment ''c1'' ''u1'', sample_comment ''c2'' ''u2'']
       ''c7'' ''u9'' ''reader''
     = (False, [sample_comment ''c1'' ''u1'', sample_comment ''c2'' ''u2''])"
proof -
  let ?tbl = "[sample_comment ''c1'' ''u1'', sample_comment ''c2'' ''u2'']"
  have f1: "filter (\<lambda>c. comment_id c = ''c1'') ?tbl = [sample_comment ''c1'' ''u1'']"
    and f7: "filter (\<lambda>c. comment_id c = ''c7'') ?tbl = []"
    and g1: "filter (\<lambda>c. comment_id c \<noteq> ''c1'') ?tbl = [sample_comment ''c2'' ''u2'']"
    and o: "comment_user_id (sample_comment ''c1'' ''u1'') \<noteq> ''u9''"
    by (simp_all add: sample_comment_def)
  note t = deleteComment_authorization [where tbl = "?tbl" and client = table_comments and s = "?tbl"
      and owner = "''u1''" and r = "\<lparr>data = None, error = Some NotSingleRow\<rparr>"
      and d = "\<lparr>data = None, error = None\<rparr>" and s' = "[sample_comment ''c2'' ''u2'']"
      and userId = "''u9''"]
  from t [where commentId = "''c1''" and c = "sample_comment ''c1'' ''u1''" and userRole = "''reader''"]
    f1 g1 o
  have a: "deleteComment table_comments ?tbl ''c1'' ''u9'' ''admin'' = (True, [sample_comment ''c2'' ''u2''])"
    and b: "deleteComment table_comments ?tbl ''c1'' ''u9'' ''reader'' = (False, ?tbl)"
    by simp_all
  from t [where commentId = "''c7''" and userRole = "''reader''"] f7
  have c: "deleteComment table_comments ?tbl ''c7'' ''u9'' ''reader'' = (False, ?tbl)"
    by simp
  from a b c show ?thesis by simp
qed

section \<open>Properties of login and registration\<close>






lemma validateRegistration_Valid:
  assumes "validateRegistration b = Valid"
  shows "\<exists>n e p. reg_name b = Some n \<and> reg_email b = Some e \<and> reg_password b = Some p"
  using assms
  by (auto simp: validateRegistration_def blank_def isValidPassword_def
      split: if_splits option.splits)

lemma validateRegistration_role:
  "validateRegistration b = Valid \<longleftrightarrow>
     validateRegistration (b\<lparr>reg_role := None\<rparr>) = Valid
     \<and> (case reg_role b of None \<Rightarrow> True
         | Some r \<Rightarrow> r = [] \<or> r \<in> set [''admin'', ''author'', ''reader''])"
  by (auto simp: validateRegistration_def split: if_splits option.splits)

lemma role_or_reader_falsy: "role = None \<or> role = Some [] \<Longrightarrow> role_or_reader role = ''reader''"
  by (auto simp: role_or_reader_def)

lemma register_POST_inserts:
  assumes v: "validateRegistration b = Valid"
    and "reg_name b = Some n" and "reg_email b = Some e" and "reg_password b = Some p"
    and "select_id_by_email client s e = Fulfilled existing" and "data existing = None"
  shows "snd (register_POST client hash sign now s (Some b))
         = snd (insert_user client s (new_user_row n e (hash p) (reg_role b) now))"
  using assms
  by (simp add: register_POST_def split: prod.splits awaited.splits option.splits)

text \<open>
  Claim C10, as amended. For every registration request that passes validation and
  whose role is absent or the empty string, and for every store that reports no user
  with the email, the handler inserts a user record with the role \<open>reader\<close> (the store
  is left as that insert leaves it). \<open>validateRegistration\<close> accepts a request exactly
  when it accepts the request without its role and the role is absent, empty or one of
  \<open>admin\<close>, \<open>author\<close>, \<open>reader\<close>: so it accepts an absent role, and an empty one, and
  rejects every other role outside the three.
\<close>

theorem registration_default_role:
  "(validateRegistration b = Valid \<and> (reg_role b = None \<or> reg_role b = Some [])
      \<and> reg_email b = Some e
      \<and> select_id_by_email client s e = Fulfilled existing \<and> data existing = None
    \<longrightarrow> (\<exists>row. nu_role row = ''reader'' \<and> nu_email row = e
          \<and> snd (register_POST client hash sign now s (Some b)) = snd (insert_user client s row)))
   \<and> (validateRegistration b = Valid \<longleftrightarrow>
        validateRegistration (b\<lparr>reg_role := None\<rparr>) = Valid
        \<and> (case reg_role b of None \<Rightarrow> True
            | Some r \<Rightarrow> r = [] \<or> r \<in> set [''admin'', ''author'', ''reader'']))
   \<and> (reg_role b = Some r \<and> r \<noteq> [] \<and> r \<notin> set [''admin'', ''author'', ''reader'']
    \<longrightarrow> validateRegistration b \<noteq> Valid
        \<and> (validateRegistration (b\<lparr>reg_role := None\<rparr>) = Valid
           \<longrightarrow> validateRegistration b = Invalid ''Invalid role specified''))"
proof -
  have 1: "\<exists>row. nu_role row = ''reader'' \<and> nu_email row = e
          \<and> snd (register_POST client hash sign now s (Some b)) = snd (insert_user client s row)"
    if a: "validateRegistration b = Valid \<and> (reg_role b = None \<or> reg_role b = Some [])
      \<and> reg_email b = Some e
      \<and> select_id_by_email client s e = Fulfilled existing \<and> data existing = None"
  proof -
    from a obtain n p where np: "reg_name b = Some n" "reg_password b = Some p"
      using validateRegistration_Valid by blast
    let ?row = "new_user_row n e (hash p) (reg_role b) now"
    from a have "nu_role ?row = ''reader''"
      by (simp add: new_user_row_def role_or_reader_falsy)
    moreover have "nu_email ?row = e" by (simp add: new_user_row_def)
    moreover from a np have "snd (register_POST client hash sign now s (Some b))
        = snd (insert_user client s ?row)"
      by (intro register_POST_inserts) auto
    ultimately show ?thesis by blast
  qed
  have 2: "validateRegistration b \<noteq> Valid
        \<and> (validateRegistration (b\<lparr>reg_role := None\<rparr>) = Valid
           \<longrightarrow> validateRegistration b = Invalid ''Invalid role specified'')"
    if "reg_role b = Some r \<and> r \<noteq> [] \<and> r \<notin> set [''admin'', ''author'', ''reader'']"
    using that by (auto simp: validateRegistration_def split: if_splits)
  from 1 2 validateRegistration_role [of b] show ?thesis by blast
qed

theorem registration_default_role_witness:
  "validateRegistration (sample_registration None) = Valid
   \<and> snd (register_POST (table_users ''u1'') sample_hash sample_sign 7 [] (Some (sample_registration None)))
       = [sample_user]
   \<and> user_role sample_user = ''reader''
   \<and> (\<exists>row. nu_role row = ''reader''
        \<and> snd (register_POST (table_users ''u1'') sample_hash sample_sign 7 []
                (Some (sample_registration None))) = snd (insert_user (table_users ''u1'') [] row))
   \<and> validateRegistration (sample_registration (Some ''root'')) = Invalid ''Invalid role specified''"
proof -
  have v: "validateRegistration (sample_registration None) = Valid" by code_simp
  have r: "reg_role (sample_registration None) = None \<or> reg_role (sample_registration None) = Some []"
    and e: "reg_email (sample_registration None) = Some ''ann@example.org''"
    by (simp_all add: sample_registration_def)
  have s: "select_id_by_email (table_users ''u1'') [] ''ann@example.org''
            = Fulfilled \<lparr>data = None, error = Some NotSingleRow\<rparr>"
    by (simp add: table_users_def single_of_def)
  note t = registration_default_role [where client = "table_users ''u1''" and s = "[]"
      and hash = sample_hash and sign = sample_sign and now = 7 and e = "''ann@example.org''"
      and existing = "\<lparr>data = None, error = Some NotSingleRow\<rparr>"]
  from t [where b = "sample_registration None"] v r e s
  obtain row where row: "nu_role row = ''reader''" "nu_email row = ''ann@example.org''"
    and ins: "snd (register_POST (table_users ''u1'') sample_hash sample_sign 7 []
                (Some (sample_registration None))) = snd (insert_user (table_users ''u1'') [] row)"
    by auto
  have 1: "snd (register_POST (table_users ''u1'') sample_hash sample_sign 7 []
                (Some (sample_registration None))) = [sample_user]"
    by code_simp
  have 2: "user_role sample_user = ''reader''" by code_simp
  have x: "reg_role (sample_registration (Some ''root'')) = Some ''root''"
    by (simp add: sample_registration_def)
  have y: "validateRegistration ((sample_registration (Some ''root''))\<lparr>reg_role := None\<rparr>) = Valid"
    by code_simp
  from t [where b = "sample_registration (Some ''root'')" and r = "''root''"] x y
  have 3: "validateRegistration (sample_registration (Some ''root'')) = Invalid ''Invalid role specified''"
    by auto
  from row ins have 4: "\<exists>row. nu_role row = ''reader''
        \<and> snd (register_POST (table_users ''u1'') sample_hash sample_sign 7 []
                (Some (sample_registration None))) = snd (insert_user (table_users ''u1'') [] row)"
    by blast
  from v 1 2 3 4 show ?thesis by blast
qed

text \<open>
  Claim C10 as stated fails for the empty string: it is a role outside \<open>admin\<close>,
  \<open>author\<close>, \<open>reader\<close>, and \<open>validateRegistration\<close> accepts it.
\<close>

theorem registration_empty_role_counterexample:
  "reg_role (sample_registration (Some '''')) = Some ''''
   \<and> '''' \<notin> set [''admin'', ''author'', ''reader'']
   \<and> validateRegistration (sample_registration (Some '''')) = Valid"
  by code_simp

section \<open>Properties of creating and updating a post\<close>

lemma posts_POST_store:
  assumes "posts_POST verifyToken now fresh_id s req = Some (reply, s')"
  shows "store_posts s' = store_posts s
       \<or> (\<exists>author title content body slug.
             req_json req = Some body
             \<and> store_posts s' = store_posts s
               @ [new_post_row fresh_id author title content body slug now])"
  using assms
  by (auto simp: posts_POST_def Let_def
      split: option.splits if_splits validation.splits sum.splits prod.splits; blast)

lemma posts_PUT_store:
  assumes "posts_PUT verifyToken now s slug req = Some (reply, s')"
  shows "store_posts s' = store_posts s
       \<or> (\<exists>existingPost body newSlug.
             req_json req = Some body
             \<and> filter (\<lambda>p. post_slug p = slug) (store_posts s) = [existingPost]
             \<and> store_posts s' = update_where_id (post_id existingPost)
                  (update_data now existingPost body newSlug) (store_posts s))"
proof -
  have single: "data (single_of xs) = Some x \<Longrightarrow> xs = [x]" for xs :: "post list" and x
    by (cases xs; cases "tl xs") (auto simp: single_of_def split: list.splits)
  from assms show ?thesis
    by (auto simp: posts_PUT_def Let_def dest!: single
        split: option.splits if_splits sum.splits prod.splits; blast)
qed

lemma new_post_row_published:
  "post_status (new_post_row fresh_id author title content body slug now) = ''published''
     \<longleftrightarrow> pb_status body = Some ''published''"
  by (auto simp: new_post_row_def or_null_def split: option.splits)

lemma new_post_row_published_at:
  "post_published_at (new_post_row fresh_id author title content body slug now) \<noteq> None
     \<longleftrightarrow> pb_status body = Some ''published''"
  by (simp add: new_post_row_def)

lemma apply_update_id: "post_id (apply_update u p) = post_id p"
  by (simp add: apply_update_def)

lemma update_where_id_ids: "map post_id (update_where_id i u ps) = map post_id ps"
  by (induction ps) (auto simp: update_where_id_def apply_update_id)

lemma update_publishes:
  assumes "post_status existingPost \<noteq> ''published''" and "pb_status body = Some ''published''"
  shows "post_published_at (apply_update (update_data now existingPost body newSlug) p) = Some now"
    and "post_status (apply_update (update_data now existingPost body newSlug) p) = ''published''"
  using assms by (simp_all add: apply_update_def update_data_def)

lemma update_keeps_published_at:
  assumes "post_status existingPost = ''published'' \<or> pb_status body \<noteq> Some ''published''"
  shows "post_published_at (apply_update (update_data now existingPost body newSlug) p)
         = post_published_at p"
  using assms by (auto simp: apply_update_def update_data_def)

lemma update_status:
  "post_status (apply_update (update_data now existingPost body newSlug) p)
     = (case pb_status body of None \<Rightarrow> post_status p | Some t \<Rightarrow> t)"
  by (simp add: apply_update_def update_data_def)

lemma reachable_distinct_and_dated:
  assumes "reachable verifyToken s"
  shows "distinct (map post_id (store_posts s)) \<and> dated_when_published s"
  using assms
proof (induction rule: reachable.induct)
  case start
  show ?case by (simp add: dated_when_published_def)
next
  case (create s fresh_id now req reply s')
  from posts_POST_store [OF create.hyps(3)] show ?case
  proof
    assume "store_posts s' = store_posts s"
    with create.IH show ?thesis by (simp add: dated_when_published_def)
  next
    assume "\<exists>author title content body slug.
      req_json req = Some body
      \<and> store_posts s' = store_posts s @ [new_post_row fresh_id author title content body slug now]"
    then obtain author title content body slug where
      s': "store_posts s' = store_posts s @ [new_post_row fresh_id author title content body slug now]"
      by blast
    have i: "post_id (new_post_row fresh_id author title content body slug now) = fresh_id"
      by (simp add: new_post_row_def)
    have "post_status (new_post_row fresh_id author title content body slug now) = ''published''
          \<longrightarrow> post_published_at (new_post_row fresh_id author title content body slug now) \<noteq> None"
      using new_post_row_published new_post_row_published_at by blast
    with create.IH create.hyps(2) s' i show ?thesis
      by (simp add: dated_when_published_def)
  qed
next
  case (update s now slug req reply s')
  from posts_PUT_store [OF update.hyps(2)] show ?case
  proof
    assume "store_posts s' = store_posts s"
    with update.IH show ?thesis by (simp add: dated_when_published_def)
  next
    assume "\<exists>existingPost body newSlug.
      req_json req = Some body
      \<and> filter (\<lambda>p. post_slug p = slug) (store_posts s) = [existingPost]
      \<and> store_posts s' = update_where_id (post_id existingPost)
           (update_data now existingPost body newSlug) (store_posts s)"
    then obtain existingPost body newSlug where
      ex: "filter (\<lambda>p. post_slug p = slug) (store_posts s) = [existingPost]"
      and s': "store_posts s' = update_where_id (post_id existingPost)
           (update_data now existingPost body newSlug) (store_posts s)"
      by blast
    let ?u = "update_data now existingPost body newSlug"
    from ex have "existingPost \<in> set (filter (\<lambda>p. post_slug p = slug) (store_posts s))" by simp
    then have mem: "existingPost \<in> set (store_posts s)" by simp
    from update.IH have d: "distinct (map post_id (store_posts s))"
      and inv: "\<And>p. p \<in> set (store_posts s) \<Longrightarrow> post_status p = ''published''
                 \<Longrightarrow> post_published_at p \<noteq> None"
      by (auto simp: dated_when_published_def list_all_iff)
    have same: "p = existingPost" if "p \<in> set (store_posts s)" "post_id p = post_id existingPost" for p
      using d mem that by (meson distinct_map inj_onD)
    have step: "post_published_at (apply_update ?u existingPost) \<noteq> None"
      if pub: "post_status (apply_update ?u existingPost) = ''published''"
    proof (cases "post_status existingPost \<noteq> ''published'' \<and> pb_status body = Some ''published''")
      case True
      then show ?thesis by (simp add: update_publishes)
    next
      case False
      then have k: "post_published_at (apply_update ?u existingPost) = post_published_at existingPost"
        by (intro update_keeps_published_at) auto
      from False pub have "post_status existingPost = ''published''"
        by (auto simp: update_status split: option.splits)
      with inv [OF mem] k show ?thesis by simp
    qed
    have "post_published_at q \<noteq> None"
      if q: "q \<in> set (store_posts s')" and pq: "post_status q = ''published''" for q
    proof -
      from q s' obtain p where p: "p \<in> set (store_posts s)"
        and qp: "q = (if post_id p = post_id existingPost then apply_update ?u p else p)"
        by (auto simp: update_where_id_def)
      show ?thesis
      proof (cases "post_id p = post_id existingPost")
        case True
        with same [OF p] qp have "q = apply_update ?u existingPost" by simp
        with step pq show ?thesis by simp
      next
        case False
        with qp inv [OF p] pq show ?thesis by simp
      qed
    qed
    moreover from d s' have "distinct (map post_id (store_posts s'))"
      by (simp add: update_where_id_ids)
    ultimately show ?thesis
      by (auto simp: dated_when_published_def list_all_iff)
  qed
qed

lemma generateSlug_table_returns: "generateSlug (table_single db) title table excludeId \<noteq> None"
  using generateSlug_table_least [of db title table excludeId] by auto

lemma posts_POST_returns: "\<exists>reply s'. posts_POST verifyToken now fresh_id s req = Some (reply, s')"
proof -
  have "posts_POST verifyToken now fresh_id s req \<noteq> None"
    by (auto simp: posts_POST_def Let_def generateSlug_table_returns
        split: option.splits validation.splits sum.splits prod.splits)
  then show ?thesis by (cases "posts_POST verifyToken now fresh_id s req") auto
qed

lemma update_slug_returns: "update_slug s existingPost body \<noteq> None"
  by (auto simp: update_slug_def generateSlug_table_returns split: option.splits sum.splits)

lemma posts_PUT_returns: "\<exists>reply s'. posts_PUT verifyToken now s slug req = Some (reply, s')"
proof -
  have "posts_PUT verifyToken now s slug req \<noteq> None"
    by (auto simp: posts_PUT_def Let_def update_slug_returns
        split: option.splits sum.splits prod.splits)
  then show ?thesis by (cases "posts_PUT verifyToken now s slug req") auto
qed

text \<open>
  Claim C4, as amended. In every state that the create and update handlers reach, a
  post with the status \<open>published\<close> has a \<open>published_at\<close>. A created post has a
  \<open>published_at\<close> exactly when it is created as \<open>published\<close>. An update whose status is
  \<open>published\<close>, of a post that is not, sets \<open>published_at\<close> to the time of the request;
  an update of a post that is \<open>published\<close> leaves its \<open>published_at\<close> as it is. Every
  update that changes the posts is the update of the post with the slug by the
  \<open>updateData\<close> of the request.
\<close>

theorem published_at_set_on_publication:
  "(reachable verifyToken s \<longrightarrow>
      (\<forall>p \<in> set (store_posts s). post_status p = ''published'' \<longrightarrow> post_published_at p \<noteq> None))
   \<and> (post_published_at (new_post_row fresh_id author title content body slug now) \<noteq> None
      \<longleftrightarrow> post_status (new_post_row fresh_id author title content body slug now) = ''published'')
   \<and> (post_status existingPost \<noteq> ''published'' \<and> pb_status body = Some ''published''
      \<longrightarrow> post_published_at (apply_update (update_data now existingPost body newSlug) existingPost)
            = Some now
          \<and> post_status (apply_update (update_data now existingPost body newSlug) existingPost)
            = ''published'')
   \<and> (post_status existingPost = ''published''
      \<longrightarrow> post_published_at (apply_update (update_data now existingPost body newSlug) existingPost)
            = post_published_at existingPost)
   \<and> (posts_PUT verifyToken now s slug req = Some (reply, s')
      \<longrightarrow> store_posts s' = store_posts s
          \<or> (\<exists>existing b newSlug.
                req_json req = Some b
                \<and> filter (\<lambda>p. post_slug p = slug) (store_posts s) = [existing]
                \<and> store_posts s' = update_where_id (post_id existing)
                     (update_data now existing b newSlug) (store_posts s)))"
proof -
  have 1: "\<forall>p \<in> set (store_posts s). post_status p = ''published'' \<longrightarrow> post_published_at p \<noteq> None"
    if "reachable verifyToken s"
    using reachable_distinct_and_dated [OF that]
    by (simp add: dated_when_published_def list_all_iff)
  have 2: "post_published_at (new_post_row fresh_id author title content body slug now) \<noteq> None
      \<longleftrightarrow> post_status (new_post_row fresh_id author title content body slug now) = ''published''"
    by (simp only: new_post_row_published new_post_row_published_at)
  have 3: "post_published_at (apply_update (update_data now existingPost body newSlug) existingPost)
            = Some now
          \<and> post_status (apply_update (update_data now existingPost body newSlug) existingPost)
            = ''published''"
    if "post_status existingPost \<noteq> ''published'' \<and> pb_status body = Some ''published''"
    using that by (simp add: update_publishes)
  have 4: "post_published_at (apply_update (update_data now existingPost body newSlug) existingPost)
            = post_published_at existingPost"
    if "post_status existingPost = ''published''"
    using that by (simp add: update_keeps_published_at)
  have 5: "store_posts s' = store_posts s
          \<or> (\<exists>existing b newSlug.
                req_json req = Some b
                \<and> filter (\<lambda>p. post_slug p = slug) (store_posts s) = [existing]
                \<and> store_posts s' = update_where_id (post_id existing)
                     (update_data now existing b newSlug) (store_posts s))"
    if "posts_PUT verifyToken now s slug req = Some (reply, s')"
    using that by (rule posts_PUT_store)
  from 1 2 3 4 5 show ?thesis by blast
qed

lemma created_published_reachable:
  "reachable sample_verify (only_post (hello_post ''published'' (Some 10) 10))"
proof -
  have c: "posts_POST sample_verify 10 ''p1'' \<lparr>store_posts = [], store_post_tags = []\<rparr>
             (as_ann (sample_body (Some ''published'')))
           = Some (\<lparr>http_status = 201,
                    http_body = Done (hello_post ''published'' (Some 10) 10)
                                  ''Post created successfully''\<rparr>,
                   only_post (hello_post ''published'' (Some 10) 10))"
    by code_simp
  have f: "''p1'' \<notin> post_id ` set (store_posts \<lparr>store_posts = [], store_post_tags = []\<rparr>)"
    by simp
  from reachable.create [OF reachable.start f c] show ?thesis .
qed

lemma unpublish_step:
  "posts_PUT sample_verify 20 (only_post (hello_post ''published'' (Some 10) 10)) ''hello-world''
       (as_ann (status_only ''draft''))
   = Some (\<lparr>http_status = 200,
            http_body = Done (hello_post ''draft'' (Some 10) 20) ''Post updated successfully''\<rparr>,
           only_post (hello_post ''draft'' (Some 10) 20))"
  by code_simp

lemma publish_again_step:
  "posts_PUT sample_verify 30 (only_post (hello_post ''draft'' (Some 10) 20)) ''hello-world''
       (as_ann (status_only ''published''))
   = Some (\<lparr>http_status = 200,
            http_body = Done (hello_post ''published'' (Some 30) 30) ''Post updated successfully''\<rparr>,
           only_post (hello_post ''published'' (Some 30) 30))"
  by code_simp

theorem published_at_set_on_publication_witness:
  "reachable sample_verify (only_post (hello_post ''published'' (Some 10) 10))
   \<and> post_status (hello_post ''published'' (Some 10) 10) = ''published''
   \<and> post_published_at (hello_post ''published'' (Some 10) 10) \<noteq> None
   \<and> post_status (hello_post ''draft'' None 10) \<noteq> ''published''
   \<and> pb_status (status_only ''published'') = Some ''published''
   \<and> post_published_at (apply_update
         (update_data 20 (hello_post ''draft'' None 10) (status_only ''published'') None)
         (hello_post ''draft'' None 10)) = Some 20
   \<and> post_published_at (apply_update
         (update_data 30 (hello_post ''published'' (Some 10) 10) (sample_body None) None)
         (hello_post ''published'' (Some 10) 10)) = Some 10"
proof -
  note t = published_at_set_on_publication [where verifyToken = sample_verify
      and s = "only_post (hello_post ''published'' (Some 10) 10)"]
  have r: "reachable sample_verify (only_post (hello_post ''published'' (Some 10) 10))"
    by (rule created_published_reachable)
  have m: "hello_post ''published'' (Some 10) 10
            \<in> set (store_posts (only_post (hello_post ''published'' (Some 10) 10)))"
    by (simp add: only_post_def)
  have st: "post_status (hello_post ''published'' (Some 10) 10) = ''published''"
    and dr: "post_status (hello_post ''draft'' None 10) \<noteq> ''published''"
    and pa: "post_published_at (hello_post ''published'' (Some 10) 10) = Some 10"
    and pb: "pb_status (status_only ''published'') = Some ''published''"
    by (simp_all add: hello_post_def status_only_def)
  from t r m st have 1: "post_published_at (hello_post ''published'' (Some 10) 10) \<noteq> None"
    by blast
  from t [where existingPost = "hello_post ''draft'' None 10" and body = "status_only ''published''"
      and now = 20 and newSlug = None] dr pb
  have 2: "post_published_at (apply_update
         (update_data 20 (hello_post ''draft'' None 10) (status_only ''published'') None)
         (hello_post ''draft'' None 10)) = Some 20"
    by blast
  from t [where existingPost = "hello_post ''published'' (Some 10) 10" and body = "sample_body None"
      and now = 30 and newSlug = None] st pa
  have 3: "post_published_at (apply_update
         (update_data 30 (hello_post ''published'' (Some 10) 10) (sample_body None) None)
         (hello_post ''published'' (Some 10) 10)) = Some 10"
    by simp
  from r st 1 dr pb 2 3 show ?thesis by blast
qed

text \<open>
  Claim C4 as stated fails. A post created as \<open>published\<close> and then updated to
  \<open>draft\<close> keeps its \<open>published_at\<close>: a reachable post that is not published and has
  one. Updated to \<open>published\<close> once more, its \<open>published_at\<close> is written a second time.
\<close>

theorem published_at_after_unpublish_counterexample:
  "reachable sample_verify (only_post (hello_post ''draft'' (Some 10) 20))
   \<and> post_status (hello_post ''draft'' (Some 10) 20) = ''draft''
   \<and> post_published_at (hello_post ''draft'' (Some 10) 20) = Some 10
   \<and> posts_PUT sample_verify 30 (only_post (hello_post ''draft'' (Some 10) 20)) ''hello-world''
         (as_ann (status_only ''published''))
      = Some (\<lparr>http_status = 200,
               http_body = Done (hello_post ''published'' (Some 30) 30)
                             ''Post updated successfully''\<rparr>,
              only_post (hello_post ''published'' (Some 30) 30))
   \<and> post_published_at (hello_post ''published'' (Some 30) 30) = Some 30"
proof -
  have "reachable sample_verify (only_post (hello_post ''draft'' (Some 10) 20))"
    by (rule reachable.update [OF created_published_reachable unpublish_step])
  moreover have "post_status (hello_post ''draft'' (Some 10) 20) = ''draft''"
    "post_published_at (hello_post ''draft'' (Some 10) 20) = Some 10"
    "post_published_at (hello_post ''published'' (Some 30) 30) = Some 30"
    by (simp_all add: hello_post_def)
  ultimately show ?thesis using publish_again_step by simp
qed

end
